theory Spec2Isabelle
  imports Complex_Main "HOL-Library.Product_Lexorder" "HOL-Library.List_Lexorder"
    "HOL-Library.Char_ord"
begin

section \<open>Tables\<close>

text \<open>
  The program (\<^verbatim>\<open>util.py\<close>) is a composition of pandas operations on data frames.
  A frame is an ordered list of column labels, the dtype of each column, and an
  ordered list of rows; every row carries its index label and one cell per column.
  A cell is a number, a string, a timestamp, or a missing value (\<^verbatim>\<open>NaN\<close>,
  \<^verbatim>\<open>NaT\<close>, \<^verbatim>\<open>None\<close>).  The dtypes are those the program meets: \<^verbatim>\<open>int64\<close>,
  \<^verbatim>\<open>float64\<close>, \<^verbatim>\<open>datetime64[ns]\<close> and \<^verbatim>\<open>object\<close>.  A number is held as a
  rational: an integer in an \<^verbatim>\<open>int64\<close> column, the value of the float in a
  \<^verbatim>\<open>float64\<close> column.  Arithmetic on floats (the mean of a group) is exact, its
  rounding is not modelled; the conversion of a 64-bit integer to a float, which
  \<^verbatim>\<open>melt\<close> performs, is (\<open>float64_of_int\<close>).

  A timestamp is (year, month, day, nanoseconds since midnight); the order on
  timestamps is the lexicographic order of these four components.
\<close>

type_synonym timestamp = "int \<times> int \<times> int \<times> int"

datatype cell = Num rat | Str string | Date timestamp | Null

datatype dtype = int64 | float64 | datetime64 | object

datatype error = KeyError | ValueError | TypeError | DateParseError | OutOfBoundsDatetime

record frame =
  columns :: "string list"
  dtypes :: "dtype list"
  rows :: "(cell \<times> cell list) list"

fun pos :: "string \<Rightarrow> string list \<Rightarrow> nat" where
  "pos c [] = 0"
| "pos c (x # xs) = (if x = c then 0 else Suc (pos c xs))"

definition dtype_of :: "frame \<Rightarrow> string \<Rightarrow> dtype" where
  "dtype_of df c = dtypes df ! pos c (columns df)"

definition is_num_or_null :: "cell \<Rightarrow> bool" where
  "is_num_or_null c = (case c of Num x \<Rightarrow> True | Null \<Rightarrow> True | _ \<Rightarrow> False)"

definition is_date_or_null :: "cell \<Rightarrow> bool" where
  "is_date_or_null c = (case c of Date d \<Rightarrow> True | Null \<Rightarrow> True | _ \<Rightarrow> False)"

text \<open>The cells that a column of a given dtype can hold: 64-bit integers and no missing
  value in an \<^verbatim>\<open>int64\<close> column, floats and \<^verbatim>\<open>NaN\<close> in a \<^verbatim>\<open>float64\<close> column,
  timestamps and \<^verbatim>\<open>NaT\<close> in a \<^verbatim>\<open>datetime64\<close> column, anything in an
  \<^verbatim>\<open>object\<close> column.\<close>

fun conforms :: "dtype \<Rightarrow> cell \<Rightarrow> bool" where
  "conforms int64 c =
     (case c of Num x \<Rightarrow> x = of_int \<lfloor>x\<rfloor> \<and> - (2 ^ 63) \<le> \<lfloor>x\<rfloor> \<and> \<lfloor>x\<rfloor> < 2 ^ 63 | _ \<Rightarrow> False)"
| "conforms float64 c = is_num_or_null c"
| "conforms datetime64 c = is_date_or_null c"
| "conforms object c = True"

text \<open>A frame is well formed when its column labels are distinct, every column has a
  dtype, and every row has one cell per column, each of the dtype of its column.\<close>

definition wf_frame :: "frame \<Rightarrow> bool" where
  "wf_frame df =
     (distinct (columns df) \<and> length (dtypes df) = length (columns df) \<and>
      list_all (\<lambda>r. length (snd r) = length (columns df)) (rows df) \<and>
      list_all (\<lambda>r. list_all2 conforms (dtypes df) (snd r)) (rows df))"

text \<open>\<^verbatim>\<open>df[c]\<close>: the cells of column \<open>c\<close>, a missing-key failure when there is no such column.\<close>

definition getitem :: "frame \<Rightarrow> string \<Rightarrow> error + cell list" where
  "getitem df c =
     (if c \<in> set (columns df) then Inr (map (\<lambda>r. snd r ! pos c (columns df)) (rows df))
      else Inl KeyError)"

text \<open>\<^verbatim>\<open>RangeIndex\<close>: the labels 0, 1, 2, ... of a freshly built frame.\<close>

definition range_index :: "cell list list \<Rightarrow> (cell \<times> cell list) list" where
  "range_index css = zip (map (\<lambda>i. Num (of_nat i)) [0..<length css]) css"

subsection \<open>The pandas operations used by the reshape function\<close>

text \<open>\<^verbatim>\<open>df.drop(columns=fs)\<close>: a new frame without the columns \<open>fs\<close>; a missing-key
  failure when one of them does not exist.\<close>

definition keep_cells :: "(string \<Rightarrow> bool) \<Rightarrow> string list \<Rightarrow> 'a list \<Rightarrow> 'a list" where
  "keep_cells p cols cs = map snd (filter (\<lambda>cv. p (fst cv)) (zip cols cs))"

definition drop_columns :: "string list \<Rightarrow> frame \<Rightarrow> error + frame" where
  "drop_columns fs df =
     (if set fs \<subseteq> set (columns df)
      then Inr \<lparr>columns = filter (\<lambda>c. c \<notin> set fs) (columns df),
                dtypes = keep_cells (\<lambda>c. c \<notin> set fs) (columns df) (dtypes df),
                rows = map (\<lambda>r. (fst r, keep_cells (\<lambda>c. c \<notin> set fs) (columns df) (snd r))) (rows df)\<rparr>
      else Inl KeyError)"

text \<open>\<^verbatim>\<open>series.isin(vals)\<close>, boolean-mask selection \<^verbatim>\<open>df[mask]\<close>, \<^verbatim>\<open>df.index\<close> and
  \<^verbatim>\<open>df.drop(labels)\<close>, which removes every row whose index label is among \<open>labels\<close>.\<close>

definition isin :: "cell list \<Rightarrow> cell list \<Rightarrow> bool list" where
  "isin xs vals = map (\<lambda>x. x \<in> set vals) xs"

definition select :: "bool list \<Rightarrow> frame \<Rightarrow> frame" where
  "select bs df = df\<lparr>rows := map snd (filter fst (zip bs (rows df)))\<rparr>"

definition index :: "frame \<Rightarrow> cell list" where
  "index df = map fst (rows df)"

definition drop_index :: "cell list \<Rightarrow> frame \<Rightarrow> frame" where
  "drop_index labels df = df\<lparr>rows := filter (\<lambda>r. fst r \<notin> set labels) (rows df)\<rparr>"

text \<open>Line 16 of the source, on one frame:
  \<^verbatim>\<open>df.drop(df[df['RegionID'].isin(regions_to_drop)].index)\<close>.  The column label
  \<^verbatim>\<open>'RegionID'\<close> is a literal of the source.\<close>

definition drop_regions :: "cell list \<Rightarrow> frame \<Rightarrow> error + frame" where
  "drop_regions regions_to_drop df =
     (case getitem df ''RegionID'' of
        Inl e \<Rightarrow> Inl e
      | Inr ids \<Rightarrow> Inr (drop_index (index (select (isin ids regions_to_drop) df)) df))"

text \<open>
  \<^verbatim>\<open>df.melt(id_vars, var_name, value_name)\<close> stacks the value columns into one
  column, which has one dtype: the common dtype of the value columns
  (\<open>find_common_type\<close>: their dtype when they all have the same, \<^verbatim>\<open>float64\<close> when
  they are integer and float columns, \<^verbatim>\<open>object\<close> otherwise; \<^verbatim>\<open>float64\<close> when there
  is no value column).  The cells of each value column are converted to it (\<open>astype\<close>).
  Only one conversion changes a value: a 64-bit integer becomes the nearest float
  (round to nearest, ties to even, 53 bits of precision), which is the integer itself
  up to \<open>2 ^ 53\<close> in magnitude.
\<close>

function bit_length :: "int \<Rightarrow> nat" where
  "bit_length n = (if n \<le> 0 then 0 else Suc (bit_length (n div 2)))"
  by auto
termination
  by (relation "measure nat") auto

declare bit_length.simps [simp del]

definition float64_of_int :: "int \<Rightarrow> int" where
  "float64_of_int n =
     (let m = \<bar>n\<bar>; e = bit_length m - 53
      in if bit_length m \<le> 53 then n
         else let q = m div 2 ^ e; r = m mod 2 ^ e;
                  q' = (if 2 ^ e < 2 * r \<or> (2 * r = 2 ^ e \<and> odd q) then q + 1 else q)
              in sgn n * (q' * 2 ^ e))"

definition astype :: "dtype \<Rightarrow> dtype \<Rightarrow> cell \<Rightarrow> cell" where
  "astype target source c =
     (if target = float64 \<and> source = int64
      then (case c of Num x \<Rightarrow> Num (of_int (float64_of_int \<lfloor>x\<rfloor>)) | _ \<Rightarrow> c)
      else c)"

definition find_common_type :: "dtype list \<Rightarrow> dtype" where
  "find_common_type ts =
     (if ts = [] then float64
      else if list_all (\<lambda>t. t = hd ts) ts then hd ts
      else if list_all (\<lambda>t. t = int64 \<or> t = float64) ts then float64
      else object)"

text \<open>The value columns are the columns not among \<open>id_vars\<close>, in column order.  The
  result lists, value column by value column and within one value column row by row,
  the identifier cells of the row, the label of the value column and the converted cell
  of the row in that column; it gets a fresh range index.  The identifier columns keep
  their dtypes and the column of labels is an \<^verbatim>\<open>object\<close> column.
  pandas refuses a \<open>value_name\<close> that is a column of the frame, and identifier labels
  that do not exist; a \<open>var_name\<close> that clashes with another output label leaves no
  single column to convert in the next step, which then fails.\<close>

definition melt :: "string list \<Rightarrow> string \<Rightarrow> string \<Rightarrow> frame \<Rightarrow> error + frame" where
  "melt id_vars var_name value_name df =
     (if value_name \<in> set (columns df) then Inl ValueError
      else if \<not> set id_vars \<subseteq> set (columns df) \<or> \<not> distinct id_vars then Inl KeyError
      else if var_name \<in> set id_vars \<or> var_name = value_name then Inl ValueError
      else Inr \<lparr>columns = id_vars @ [var_name, value_name],
                dtypes = map (dtype_of df) id_vars
                           @ [object, find_common_type (map (dtype_of df)
                                        (filter (\<lambda>c. c \<notin> set id_vars) (columns df)))],
                rows = range_index (concat (map (\<lambda>v.
                         map (\<lambda>r. map (\<lambda>i. snd r ! pos i (columns df)) id_vars
                                   @ [Str v,
                                      astype (find_common_type (map (dtype_of df)
                                                (filter (\<lambda>c. c \<notin> set id_vars) (columns df))))
                                        (dtype_of df v) (snd r ! pos v (columns df))]) (rows df))
                         (filter (\<lambda>c. c \<notin> set id_vars) (columns df))))\<rparr>)"

text \<open>
  \<^verbatim>\<open>df[c] = pd.to_datetime(df[c])\<close>.  pandas does not read each string on its
  own: it infers one date format from the first element of the column that is not
  missing, when that is a string, and reads every string of the column in that format;
  a string that does not match it is a failure.  When it can infer no format from that
  element, it reads each string by itself.  The parser belongs to pandas and is the
  parameter \<open>parse\<close> of the model: \<open>parse first s\<close> is the timestamp read from the
  string \<open>s\<close> in a column whose first non-missing element is the string \<open>first\<close>
  (\<open>first = None\<close> when that element is not a string), and is \<open>None\<close> when \<open>s\<close>
  cannot be read.  Missing values stay missing.  The converted column has the dtype
  \<^verbatim>\<open>datetime64[ns]\<close>.
\<close>

type_synonym parser = "string option \<Rightarrow> string \<Rightarrow> timestamp option"

definition first_label :: "cell list \<Rightarrow> string option" where
  "first_label cs = (case find (\<lambda>c. c \<noteq> Null) cs of Some (Str s) \<Rightarrow> Some s | _ \<Rightarrow> None)"

definition datetime_of :: "(string \<Rightarrow> timestamp option) \<Rightarrow> cell \<Rightarrow> cell option" where
  "datetime_of strptime c =
     (case c of Str s \<Rightarrow> map_option Date (strptime s)
              | Date d \<Rightarrow> Some (Date d)
              | Null \<Rightarrow> Some Null
              | Num n \<Rightarrow> None)"

fun array_strptime :: "(string \<Rightarrow> timestamp option) \<Rightarrow> cell list \<Rightarrow> error + cell list" where
  "array_strptime strptime [] = Inr []"
| "array_strptime strptime (c # cs) =
     (case datetime_of strptime c of
        None \<Rightarrow> Inl DateParseError
      | Some d \<Rightarrow> (case array_strptime strptime cs of Inl e \<Rightarrow> Inl e | Inr ds \<Rightarrow> Inr (d # ds)))"

definition to_datetime :: "parser \<Rightarrow> cell list \<Rightarrow> error + cell list" where
  "to_datetime parse cs = array_strptime (parse (first_label cs)) cs"

definition setitem :: "frame \<Rightarrow> string \<Rightarrow> dtype \<Rightarrow> cell list \<Rightarrow> frame" where
  "setitem df c t vs =
     df\<lparr>dtypes := (dtypes df)[pos c (columns df) := t],
        rows := map (\<lambda>rv. (fst (fst rv), (snd (fst rv))[pos c (columns df) := snd rv])) (zip (rows df) vs)\<rparr>"

definition assign_to_datetime :: "parser \<Rightarrow> string \<Rightarrow> frame \<Rightarrow> error + frame" where
  "assign_to_datetime parse c df =
     (case getitem df c of
        Inl e \<Rightarrow> Inl e
      | Inr labels \<Rightarrow> (case to_datetime parse labels of
                        Inl e \<Rightarrow> Inl e
                      | Inr ds \<Rightarrow> Inr (setitem df c datetime64 ds)))"

text \<open>\<^verbatim>\<open>df.dropna(subset=[c])\<close>: a new frame without the rows whose cell in column \<open>c\<close>
  is missing.  A zero is not a missing value.\<close>

definition dropna :: "string \<Rightarrow> frame \<Rightarrow> error + frame" where
  "dropna c df =
     (if c \<in> set (columns df)
      then Inr (df\<lparr>rows := filter (\<lambda>r. snd r ! pos c (columns df) \<noteq> Null) (rows df)\<rparr>)
      else Inl KeyError)"

text \<open>\<^verbatim>\<open>df.set_index(c)\<close>: column \<open>c\<close> becomes the index and leaves the columns.\<close>

definition remove_nth :: "nat \<Rightarrow> 'a list \<Rightarrow> 'a list" where
  "remove_nth i xs = take i xs @ drop (Suc i) xs"

definition set_index :: "string \<Rightarrow> frame \<Rightarrow> error + frame" where
  "set_index c df =
     (if c \<in> set (columns df)
      then Inr \<lparr>columns = remove_nth (pos c (columns df)) (columns df),
                dtypes = remove_nth (pos c (columns df)) (dtypes df),
                rows = map (\<lambda>r. (snd r ! pos c (columns df), remove_nth (pos c (columns df)) (snd r))) (rows df)\<rparr>
      else Inl KeyError)"

section \<open>Objects and references\<close>

text \<open>
  Python variables hold references.  The store lists the frames allocated so far; a
  reference is a position in it.  An operation either builds a new frame
  (\<open>new_frame\<close>: the store grows, the old frames stay as they are) or works in place
  (\<open>update_frame\<close>, for \<^verbatim>\<open>inplace=True\<close> and for column assignment).  A failure
  leaves the store as it was at that moment and ends the call.
\<close>

type_synonym store = "frame list"

definition new_frame :: "error + frame \<Rightarrow> store \<Rightarrow> store \<times> (error + nat)" where
  "new_frame r s = (case r of Inl e \<Rightarrow> (s, Inl e) | Inr f \<Rightarrow> (s @ [f], Inr (length s)))"

definition update_frame :: "nat \<Rightarrow> error + frame \<Rightarrow> store \<Rightarrow> store \<times> (error + nat)" where
  "update_frame a r s = (case r of Inl e \<Rightarrow> (s, Inl e) | Inr f \<Rightarrow> (s[a := f], Inr a))"

definition then_do ::
  "store \<times> (error + 'a) \<Rightarrow> ('a \<Rightarrow> store \<Rightarrow> store \<times> (error + 'b)) \<Rightarrow> store \<times> (error + 'b)" where
  "then_do m f = (case snd m of Inl e \<Rightarrow> (fst m, Inl e) | Inr x \<Rightarrow> f x (fst m))"

text \<open>The frame a call returns, read from the store it leaves.\<close>

definition result_frame :: "store \<times> (error + nat) \<Rightarrow> error + frame" where
  "result_frame m = (case snd m of Inl e \<Rightarrow> Inl e | Inr a \<Rightarrow> Inr (fst m ! a))"

section \<open>The reshape function\<close>

definition US_COUNTRY_REGION_ID :: cell where
  "US_COUNTRY_REGION_ID = Num 102001"

text \<open>Python's truth value of \<^verbatim>\<open>index_field\<close>: \<^verbatim>\<open>None\<close> and the empty string are false.\<close>

definition truthy :: "string option \<Rightarrow> bool" where
  "truthy x = (case x of None \<Rightarrow> False | Some s \<Rightarrow> s \<noteq> [])"

text \<open>
  \<open>melt_zillow_dataset parse s df ...\<close> is the call of the source function in store
  \<open>s\<close> on the frame referenced by \<open>df\<close>.  It returns the store after the call and the
  reference of the returned frame, or the failure.  Each line rebinds the local
  variables \<open>df\<close> (and here the store \<open>s\<close>), as the source rebinds \<open>df\<close>.
\<close>

definition melt_zillow_dataset ::
  "parser \<Rightarrow> store \<Rightarrow> nat \<Rightarrow> string list \<Rightarrow> string list \<Rightarrow> cell list
     \<Rightarrow> string \<Rightarrow> string \<Rightarrow> string option \<Rightarrow> bool \<Rightarrow> store \<times> (error + nat)" where
  "melt_zillow_dataset parse s df id_fields fields_to_drop regions_to_drop date_col value_col
       index_field drop_na =
     then_do (if length fields_to_drop > 0
              then new_frame (drop_columns fields_to_drop (s ! df)) s else (s, Inr df)) (\<lambda>df s.
     then_do (if length regions_to_drop > 0
              then update_frame df (drop_regions regions_to_drop (s ! df)) s else (s, Inr df)) (\<lambda>df s.
     then_do (new_frame (melt id_fields date_col value_col (s ! df)) s) (\<lambda>df s.
     then_do (update_frame df (assign_to_datetime parse date_col (s ! df)) s) (\<lambda>df s.
     then_do (if drop_na
              then new_frame (dropna value_col (s ! df)) s else (s, Inr df)) (\<lambda>df s.
     then_do (if truthy index_field
              then update_frame df (set_index (the index_field) (s ! df)) s else (s, Inr df)) (\<lambda>df s.
     (s, Inr df)))))))"

section \<open>The ranking function\<close>

subsection \<open>Calendar arithmetic\<close>

text \<open>\<^verbatim>\<open>t - pd.DateOffset(months=n)\<close> moves the (year, month) of \<open>t\<close> back by \<open>n\<close>
  calendar months, keeps the time of day, and keeps the day of the month unless the
  target month is shorter, in which case the day is the last day of that month.  A
  missing timestamp stays missing.  pandas' nanosecond timestamps range from
  \<^verbatim>\<open>Timestamp.min\<close> to \<^verbatim>\<open>Timestamp.max\<close>; a result outside is a failure.\<close>

definition is_leap :: "int \<Rightarrow> bool" where
  "is_leap y = (y mod 4 = 0 \<and> (y mod 100 \<noteq> 0 \<or> y mod 400 = 0))"

definition days_in_month :: "int \<Rightarrow> int \<Rightarrow> int" where
  "days_in_month y m =
     (if m = 2 then (if is_leap y then 29 else 28)
      else if m = 4 \<or> m = 6 \<or> m = 9 \<or> m = 11 then 30 else 31)"

definition add_months :: "timestamp \<Rightarrow> int \<Rightarrow> timestamp" where
  "add_months t n =
     (case t of (y, m, d, ns) \<Rightarrow>
        let k = y * 12 + (m - 1) + n; y' = k div 12; m' = k mod 12 + 1
        in (y', m', min d (days_in_month y' m'), ns))"

text \<open>The components of a timestamp, the number of its month counted from year 0, and
  the timestamps that denote a moment of the calendar.\<close>

definition year_of :: "timestamp \<Rightarrow> int" where
  "year_of t = fst t"

definition month_of :: "timestamp \<Rightarrow> int" where
  "month_of t = fst (snd t)"

definition day_of :: "timestamp \<Rightarrow> int" where
  "day_of t = fst (snd (snd t))"

definition time_of :: "timestamp \<Rightarrow> int" where
  "time_of t = snd (snd (snd t))"

definition month_index :: "timestamp \<Rightarrow> int" where
  "month_index t = year_of t * 12 + (month_of t - 1)"

definition valid_timestamp :: "timestamp \<Rightarrow> bool" where
  "valid_timestamp t =
     (1 \<le> month_of t \<and> month_of t \<le> 12 \<and>
      1 \<le> day_of t \<and> day_of t \<le> days_in_month (year_of t) (month_of t) \<and>
      0 \<le> time_of t \<and> time_of t < 86400000000000)"

definition Timestamp_min :: timestamp where
  "Timestamp_min = (1677, 9, 21, 763145224193)"

definition Timestamp_max :: timestamp where
  "Timestamp_max = (2262, 4, 11, 85636854775807)"

subsection \<open>The pandas operations used by the ranking function\<close>

text \<open>\<^verbatim>\<open>series.max()\<close> on a column of timestamps skips missing values.  When the
  column holds no timestamp at all, the maximum is the missing timestamp \<^verbatim>\<open>NaT\<close> if
  the column has the dtype \<^verbatim>\<open>datetime64[ns]\<close>; in a column of another dtype (an
  empty table built without dtypes has \<^verbatim>\<open>object\<close> columns) it is the float
  \<^verbatim>\<open>nan\<close>, and subtracting the offset from it on the next line is a type failure.
  A number or a string in the column makes the comparison with a timestamp, or that
  subtraction, a type failure too.\<close>

fun maximum :: "timestamp list \<Rightarrow> timestamp option" where
  "maximum [] = None"
| "maximum (x # xs) = (case maximum xs of None \<Rightarrow> Some x | Some m \<Rightarrow> Some (max x m))"

definition the_dates :: "cell list \<Rightarrow> timestamp list" where
  "the_dates cs = List.map_filter (\<lambda>c. case c of Date d \<Rightarrow> Some d | _ \<Rightarrow> None) cs"

definition current_date :: "frame \<Rightarrow> string \<Rightarrow> error + timestamp option" where
  "current_date df date_col =
     (case getitem df date_col of
        Inl e \<Rightarrow> Inl e
      | Inr ds \<Rightarrow> if list_all is_date_or_null ds \<and>
                     (the_dates ds \<noteq> [] \<or> dtype_of df date_col = datetime64)
                  then Inr (maximum (the_dates ds)) else Inl TypeError)"

definition last_n_months :: "timestamp option \<Rightarrow> int \<Rightarrow> error + timestamp option" where
  "last_n_months current months =
     (case current of
        None \<Rightarrow> Inr None
      | Some t \<Rightarrow> (let r = add_months t (- months)
                  in if Timestamp_min \<le> r \<and> r \<le> Timestamp_max then Inr (Some r)
                     else Inl OutOfBoundsDatetime))"

text \<open>\<^verbatim>\<open>df[df[date_col] >= last_n_months]\<close>: a comparison with a missing timestamp, on
  either side, is false.\<close>

definition ge :: "cell \<Rightarrow> timestamp option \<Rightarrow> bool" where
  "ge c start =
     (case c of Date d \<Rightarrow> (case start of Some t \<Rightarrow> t \<le> d | None \<Rightarrow> False) | _ \<Rightarrow> False)"

definition ge_mask :: "cell list \<Rightarrow> timestamp option \<Rightarrow> bool list" where
  "ge_mask ds start = map (\<lambda>c. ge c start) ds"

definition df_last_n_months :: "frame \<Rightarrow> string \<Rightarrow> timestamp option \<Rightarrow> error + frame" where
  "df_last_n_months df date_col start =
     (case getitem df date_col of
        Inl e \<Rightarrow> Inl e
      | Inr ds \<Rightarrow> Inr (select (ge_mask ds start) df))"

text \<open>\<^verbatim>\<open>df.groupby([a, b])[c].mean().reset_index()\<close>: one row per distinct pair of
  keys, in ascending order of the keys (numbers before timestamps before strings); rows
  with a missing key belong to no group.  The mean of a group skips missing values and
  is missing when the group has no value.  The metric column holds numbers.  The key
  columns keep their dtypes; the means of an integer column are floats.\<close>

definition cell_key :: "cell \<Rightarrow> nat \<times> rat \<times> string \<times> timestamp" where
  "cell_key c =
     (case c of Num x \<Rightarrow> (0, x, [], (0, 0, 0, 0))
              | Date d \<Rightarrow> (1, 0, [], d)
              | Str s \<Rightarrow> (2, 0, s, (0, 0, 0, 0))
              | Null \<Rightarrow> (3, 0, [], (0, 0, 0, 0)))"

definition row_keys :: "frame \<Rightarrow> string \<Rightarrow> string \<Rightarrow> (cell \<times> cell) list" where
  "row_keys df a b = map (\<lambda>r. (snd r ! pos a (columns df), snd r ! pos b (columns df))) (rows df)"

definition group_keys :: "frame \<Rightarrow> string \<Rightarrow> string \<Rightarrow> (cell \<times> cell) list" where
  "group_keys df a b =
     sort_key (\<lambda>k. (cell_key (fst k), cell_key (snd k)))
       (remdups (filter (\<lambda>k. fst k \<noteq> Null \<and> snd k \<noteq> Null) (row_keys df a b)))"

definition the_nums :: "cell list \<Rightarrow> rat list" where
  "the_nums cs = List.map_filter (\<lambda>c. case c of Num x \<Rightarrow> Some x | _ \<Rightarrow> None) cs"

definition mean :: "cell list \<Rightarrow> cell" where
  "mean cs = (if the_nums cs = [] then Null else Num (sum_list (the_nums cs) / of_nat (length (the_nums cs))))"

definition groupby_mean :: "string \<Rightarrow> string \<Rightarrow> string \<Rightarrow> frame \<Rightarrow> error + frame" where
  "groupby_mean a b c df =
     (if \<not> {a, b, c} \<subseteq> set (columns df) then Inl KeyError
      else if \<not> list_all (\<lambda>r. is_num_or_null (snd r ! pos c (columns df))) (rows df) then Inl TypeError
      else if \<not> distinct [a, b, c] then Inl ValueError
      else Inr \<lparr>columns = [a, b, c],
                dtypes = [dtype_of df a, dtype_of df b,
                          if dtype_of df c = int64 then float64 else dtype_of df c],
                rows = range_index (map (\<lambda>k.
                         [fst k, snd k,
                          mean (map (\<lambda>r. snd r ! pos c (columns df))
                                  (filter (\<lambda>r. (snd r ! pos a (columns df), snd r ! pos b (columns df)) = k)
                                     (rows df)))])
                         (group_keys df a b))\<rparr>)"

text \<open>
  \<^verbatim>\<open>df.sort_values(by=c, ascending=False)\<close>.  The source does not choose the sorting
  algorithm, so pandas uses its default, \<^verbatim>\<open>kind='quicksort'\<close>: numpy's
  \<^verbatim>\<open>argsort\<close>, of which only the contract is fixed (\<open>argsort_ok\<close>: it returns the
  positions of its argument, each once, in ascending order of the values); the order it
  gives to equal values is not.  It is the parameter \<open>qs\<close> of the model.  For a
  descending sort pandas reverses the non-missing values, sorts them ascending with
  \<open>qs\<close>, reverses the result, and puts the missing values last.
\<close>

definition argsort_ok :: "(rat list \<Rightarrow> nat list) \<Rightarrow> bool" where
  "argsort_ok qs =
     (\<forall>xs. distinct (qs xs) \<and> set (qs xs) = {..<length xs} \<and> sorted (map (\<lambda>i. xs ! i) (qs xs)))"

definition num_of :: "cell \<Rightarrow> rat" where
  "num_of c = (case c of Num x \<Rightarrow> x | _ \<Rightarrow> 0)"

definition nargsort :: "(rat list \<Rightarrow> nat list) \<Rightarrow> cell list \<Rightarrow> nat list" where
  "nargsort qs items =
     (let idx = [0..<length items];
          non_nan_idx = rev (filter (\<lambda>i. items ! i \<noteq> Null) idx);
          non_nans = map (\<lambda>i. num_of (items ! i)) non_nan_idx;
          nan_idx = filter (\<lambda>i. items ! i = Null) idx
      in rev (map (\<lambda>j. non_nan_idx ! j) (qs non_nans)) @ nan_idx)"

definition sort_values :: "(rat list \<Rightarrow> nat list) \<Rightarrow> string \<Rightarrow> frame \<Rightarrow> error + frame" where
  "sort_values qs c df =
     (case getitem df c of
        Inl e \<Rightarrow> Inl e
      | Inr items \<Rightarrow> Inr (df\<lparr>rows := map (\<lambda>i. rows df ! i) (nargsort qs items)\<rparr>))"

text \<open>\<^verbatim>\<open>df.head(n)\<close>: the first \<open>n\<close> rows; for a negative \<open>n\<close>, all rows but the last
  \<open>-n\<close>.\<close>

definition head :: "int \<Rightarrow> frame \<Rightarrow> frame" where
  "head n df =
     df\<lparr>rows := (if 0 \<le> n then take (nat n) (rows df)
                 else take (length (rows df) - nat (- n)) (rows df))\<rparr>"

text \<open>A sorting procedure that meets the contract and keeps equal values in the order
  of their positions.\<close>

definition argsort_stable :: "rat list \<Rightarrow> nat list" where
  "argsort_stable xs = sort_key (\<lambda>i. xs ! i) [0..<length xs]"

text \<open>
  What numpy's default \<^verbatim>\<open>argsort\<close> does on a processor with AVX-512, where it
  dispatches to the vectorized sort of x86-simd-sort: an array of at most eight 64-bit
  numbers is sorted in one vector register of eight lanes by a bitonic network of six
  compare-exchange steps (\<^verbatim>\<open>sort_zmm_64bit\<close>).  A lane holds a key and the position
  the key came from; the lanes beyond the end of the array are loaded with the key
  \<open>+\<infinity>\<close> (here: first component \<open>True\<close>) and the position 0.  In one step
  (\<^verbatim>\<open>cmp_merge\<close>) every lane is compared with its partner lane and keeps the smaller
  or the greater of the two keys, as its mask bit says; it keeps its own position when
  the key it keeps equals its own key, and takes the position of the partner otherwise.
  Arrays of more than eight numbers go through further merging networks and through
  partitioning; that part is the parameter \<open>longer\<close>.
\<close>

type_synonym lane = "(bool \<times> rat) \<times> nat"

definition cmp_merge :: "nat list \<Rightarrow> bool list \<Rightarrow> lane list \<Rightarrow> lane list" where
  "cmp_merge partner msk v =
     map (\<lambda>i. let a = v ! i; b = v ! (partner ! i);
                  k = (if msk ! i then max (fst a) (fst b) else min (fst a) (fst b))
              in (k, if k = fst a then snd a else snd b)) [0..<length v]"

definition sort_zmm_64bit :: "lane list \<Rightarrow> lane list" where
  "sort_zmm_64bit v =
     (let xAA = [False, True, False, True, False, True, False, True];
          xCC = [False, False, True, True, False, False, True, True];
          xF0 = [False, False, False, False, True, True, True, True];
          swap = [1, 0, 3, 2, 5, 4, 7, 6];
          network1 = [3, 2, 1, 0, 7, 6, 5, 4];
          network2 = [7, 6, 5, 4, 3, 2, 1, 0];
          network3 = [2, 3, 0, 1, 6, 7, 4, 5]
      in cmp_merge swap xAA (cmp_merge network3 xCC (cmp_merge network2 xF0
           (cmp_merge swap xAA (cmp_merge network1 xCC (cmp_merge swap xAA v))))))"

definition avx512_argsort :: "(rat list \<Rightarrow> nat list) \<Rightarrow> rat list \<Rightarrow> nat list" where
  "avx512_argsort longer xs =
     (if length xs \<le> 1 then [0..<length xs]
      else if length xs \<le> 8
      then take (length xs) (map snd (sort_zmm_64bit
             (map (\<lambda>i. if i < length xs then ((False, xs ! i), i) else ((True, 0), 0)) [0..<8])))
      else longer xs)"

subsection \<open>The function\<close>

text \<open>Lines 61 to 64: group, average, sort and truncate the frame referenced by \<open>df\<close>.\<close>

definition top_regions ::
  "(rat list \<Rightarrow> nat list) \<Rightarrow> store \<Rightarrow> nat \<Rightarrow> int \<Rightarrow> string \<Rightarrow> string \<Rightarrow> string
     \<Rightarrow> store \<times> (error + nat)" where
  "top_regions qs s df top_n region_id_col region_name_col mom_change_col =
     then_do (new_frame (groupby_mean region_id_col region_name_col mom_change_col (s ! df)) s) (\<lambda>avg s.
     then_do (new_frame (sort_values qs mom_change_col (s ! avg)) s) (\<lambda>sorted s.
     new_frame (Inr (head top_n (s ! sorted))) s))"

definition get_top_regions_by_mom_change ::
  "(rat list \<Rightarrow> nat list) \<Rightarrow> store \<Rightarrow> nat \<Rightarrow> int \<Rightarrow> int \<Rightarrow> string \<Rightarrow> string \<Rightarrow> string \<Rightarrow> string
     \<Rightarrow> store \<times> (error + nat)" where
  "get_top_regions_by_mom_change qs s df months top_n date_col region_id_col region_name_col
       mom_change_col =
     then_do (s, current_date (s ! df) date_col) (\<lambda>current s.
     then_do (s, last_n_months current months) (\<lambda>start s.
     then_do (new_frame (df_last_n_months (s ! df) date_col start) s) (\<lambda>window s.
     top_regions qs s window top_n region_id_col region_name_col mom_change_col)))"

section \<open>Auxiliary notions for the proofs\<close>

text \<open>Store \<open>t\<close> extends store \<open>s\<close> when every frame of \<open>s\<close> is in \<open>t\<close>, unchanged, under
  the same reference.  A computation is fresh for \<open>s\<close> when in addition the reference it
  returns was allocated after \<open>s\<close>.\<close>

definition extends :: "store \<Rightarrow> store \<Rightarrow> bool" where
  "extends s t = (take (length s) t = s \<and> length s \<le> length t)"

definition fresh :: "store \<Rightarrow> store \<times> (error + nat) \<Rightarrow> bool" where
  "fresh s m =
     (extends s (fst m) \<and>
      (case snd m of Inl e \<Rightarrow> True | Inr a \<Rightarrow> length s \<le> a \<and> a < length (fst m)))"

text \<open>The frame that the reshape function returns, as a function of the frame it is
  called on (lemma \<open>melt_zillow_dataset_result\<close> below).\<close>

definition bind_sum :: "error + 'a \<Rightarrow> ('a \<Rightarrow> error + 'b) \<Rightarrow> error + 'b" where
  "bind_sum m f = (case m of Inl e \<Rightarrow> Inl e | Inr x \<Rightarrow> f x)"

definition remaining :: "frame \<Rightarrow> string list \<Rightarrow> cell list \<Rightarrow> error + frame" where
  "remaining df0 fields_to_drop regions_to_drop =
     bind_sum (if length fields_to_drop > 0 then drop_columns fields_to_drop df0 else Inr df0) (\<lambda>f1.
     if length regions_to_drop > 0 then drop_regions regions_to_drop f1 else Inr f1)"

definition reshaped ::
  "parser \<Rightarrow> frame \<Rightarrow> string list \<Rightarrow> string list \<Rightarrow> cell list
     \<Rightarrow> string \<Rightarrow> string \<Rightarrow> string option \<Rightarrow> bool \<Rightarrow> error + frame" where
  "reshaped parse df0 id_fields fields_to_drop regions_to_drop date_col value_col index_field drop_na =
     bind_sum (remaining df0 fields_to_drop regions_to_drop) (\<lambda>f2.
     bind_sum (melt id_fields date_col value_col f2) (\<lambda>f3.
     bind_sum (assign_to_datetime parse date_col f3) (\<lambda>f4.
     bind_sum (if drop_na then dropna value_col f4 else Inr f4) (\<lambda>f5.
     if truthy index_field then set_index (the index_field) f5 else Inr f5))))"

text \<open>The shape of a frame built by \<open>melt\<close>: the identifier columns, then the
  variable and the value column, all labels distinct, every row of that length.\<close>

definition melted :: "string list \<Rightarrow> string \<Rightarrow> string \<Rightarrow> frame \<Rightarrow> bool" where
  "melted ids dc vc f =
     (columns f = ids @ [dc, vc] \<and> distinct (ids @ [dc, vc]) \<and>
      list_all (\<lambda>r. length (snd r) = length ids + 2) (rows f))"

text \<open>The dtype of the value column that \<open>melt\<close> builds.\<close>

definition value_dtype :: "frame \<Rightarrow> string list \<Rightarrow> dtype" where
  "value_dtype df id_vars =
     find_common_type (map (dtype_of df) (filter (\<lambda>c. c \<notin> set id_vars) (columns df)))"

text \<open>The cell of a row of the returned frame under the label \<open>c\<close>: the index label
  when \<open>c\<close> was made the index, the cell of column \<open>c\<close> otherwise.\<close>

definition field :: "frame \<Rightarrow> string option \<Rightarrow> string \<Rightarrow> cell \<times> cell list \<Rightarrow> cell" where
  "field out index_field c r =
     (if truthy index_field \<and> the index_field = c then fst r
      else snd r ! pos c (columns out))"

text \<open>What lines 28 and 29 do to one row of a frame with columns \<open>cols\<close>.\<close>

definition finish_row :: "string option \<Rightarrow> string list \<Rightarrow> cell \<times> cell list \<Rightarrow> cell \<times> cell list" where
  "finish_row index_field cols r =
     (if truthy index_field
      then (snd r ! pos (the index_field) cols, remove_nth (pos (the index_field) cols) (snd r))
      else r)"

text \<open>The rows of a frame whose region identifier is in the exclusion set.\<close>

definition excluded_rows :: "frame \<Rightarrow> cell list \<Rightarrow> (cell \<times> cell list) list" where
  "excluded_rows df regions_to_drop =
     filter (\<lambda>r. snd r ! pos ''RegionID'' (columns df) \<in> set regions_to_drop) (rows df)"

text \<open>The rows of a frame whose region identifier is not in the exclusion set.\<close>

definition retained_rows :: "frame \<Rightarrow> cell list \<Rightarrow> (cell \<times> cell list) list" where
  "retained_rows df regions_to_drop =
     filter (\<lambda>r. snd r ! pos ''RegionID'' (columns df) \<notin> set regions_to_drop) (rows df)"

text \<open>The contract of the date parser that the reshape theorem relies on: what it reads
  is a date of the calendar.\<close>

definition parser_ok :: "parser \<Rightarrow> bool" where
  "parser_ok parse = (\<forall>first s d. parse first s = Some d \<longrightarrow> valid_timestamp d)"

text \<open>The rows that remain after line 16 (every row that shares its index label with an
  excluded row is dropped), and the value columns that remain after line 13: the
  columns that are neither dropped nor identifiers.\<close>

definition kept_rows :: "frame \<Rightarrow> cell list \<Rightarrow> (cell \<times> cell list) list" where
  "kept_rows df regions_to_drop =
     filter (\<lambda>r. fst r \<notin> set (map fst (excluded_rows df regions_to_drop))) (rows df)"

definition value_columns :: "frame \<Rightarrow> string list \<Rightarrow> string list \<Rightarrow> string list" where
  "value_columns df id_fields fields_to_drop =
     filter (\<lambda>c. c \<notin> set fields_to_drop \<and> c \<notin> set id_fields) (columns df)"

text \<open>The frames that the ranking function computes, as functions of the frame it is
  called on: the trailing window (lines 52 to 58) and the ranking of a frame (lines 61
  to 64); see lemmas \<open>get_top_regions_result\<close> and \<open>top_regions_result\<close> below.\<close>

definition window :: "frame \<Rightarrow> string \<Rightarrow> int \<Rightarrow> error + frame" where
  "window df0 date_col months =
     bind_sum (current_date df0 date_col) (\<lambda>current.
     bind_sum (last_n_months current months) (\<lambda>start.
     df_last_n_months df0 date_col start))"

definition ranked ::
  "(rat list \<Rightarrow> nat list) \<Rightarrow> frame \<Rightarrow> int \<Rightarrow> string \<Rightarrow> string \<Rightarrow> string \<Rightarrow> error + frame" where
  "ranked qs w top_n region_id_col region_name_col mom_change_col =
     bind_sum (groupby_mean region_id_col region_name_col mom_change_col w) (\<lambda>avg.
     bind_sum (sort_values qs mom_change_col avg) (\<lambda>sorted.
     Inr (head top_n sorted)))"


text \<open>Descending order with missing values last: \<open>a\<close> may stand before \<open>b\<close>.\<close>

definition precedes :: "cell \<Rightarrow> cell \<Rightarrow> bool" where
  "precedes a b = (b = Null \<or> (a \<noteq> Null \<and> num_of b \<le> num_of a))"


section \<open>Example tables\<close>

text \<open>The parser of the examples knows one format, \<^verbatim>\<open>YYYY-MM-DD\<close>, which is
  the format of the column labels of the data set: when the first label is a date in
  this format, every label is read in it (midnight of that day, when the day exists and
  is in the range of pandas' timestamps); nothing else is read.\<close>

definition digit_value :: "char \<Rightarrow> int option" where
  "digit_value =
     map_of [(CHR ''0'', 0), (CHR ''1'', 1), (CHR ''2'', 2), (CHR ''3'', 3), (CHR ''4'', 4),
             (CHR ''5'', 5), (CHR ''6'', 6), (CHR ''7'', 7), (CHR ''8'', 8), (CHR ''9'', 9)]"

definition decimal :: "string \<Rightarrow> int option" where
  "decimal s =
     (if s = [] \<or> \<not> list_all (\<lambda>c. digit_value c \<noteq> None) s then None
      else Some (foldl (\<lambda>n c. 10 * n + the (digit_value c)) 0 s))"

definition iso_date :: "string \<Rightarrow> timestamp option" where
  "iso_date s =
     (if length s = 10 \<and> s ! 4 = CHR ''-'' \<and> s ! 7 = CHR ''-''
      then (case (decimal (take 4 s), decimal (take 2 (drop 5 s)), decimal (drop 8 s)) of
              (Some y, Some m, Some d) \<Rightarrow>
                 if valid_timestamp (y, m, d, 0) \<and> Timestamp_min \<le> (y, m, d, 0) \<and>
                    (y, m, d, 0) \<le> Timestamp_max
                 then Some (y, m, d, 0) else None
            | _ \<Rightarrow> None)
      else None)"

definition example_parse :: parser where
  "example_parse first s =
     (case first of None \<Rightarrow> None
                  | Some l \<Rightarrow> if iso_date l = None then None else iso_date s)"

definition wide_example :: frame where
  "wide_example =
     \<lparr>columns = [''RegionID'', ''SizeRank'', ''RegionName'', ''2020-01-31'', ''2020-02-29''],
      dtypes = [int64, int64, object, float64, float64],
      rows = [(Num 0, [Num 102001, Num 0, Str ''United States'', Num 300, Num 310]),
              (Num 1, [Num 1, Num 1, Str ''A'', Num 100, Num 0]),
              (Num 2, [Num 2, Num 2, Str ''B'', Num 200, Null])]\<rparr>"

definition long_example :: frame where
  "long_example =
     \<lparr>columns = [''RegionID'', ''RegionName'', ''EestimationDate'', ''MoM_Change''],
      dtypes = [int64, object, datetime64, float64],
      rows = [(Num 0, [Num 1, Str ''A'', Date (2020, 1, 31, 0), Num 1]),
              (Num 1, [Num 2, Str ''B'', Date (2020, 1, 31, 0), Num 3]),
              (Num 2, [Num 1, Str ''A'', Date (2020, 3, 31, 0), Num 2]),
              (Num 3, [Num 2, Str ''B'', Date (2020, 3, 31, 0), Num 3])]\<rparr>"

text \<open>The example table with its region identifier column under another label.\<close>

definition wide_renamed :: frame where
  "wide_renamed = wide_example\<lparr>columns := [''ZipCode'', ''SizeRank'', ''RegionName'', ''2020-01-31'', ''2020-02-29'']\<rparr>"

text \<open>The reshaped example table, null values dropped.\<close>

definition reshaped_example :: frame where
  "reshaped_example =
     \<lparr>columns = [''RegionID'', ''RegionName'', ''Date'', ''Value''],
      dtypes = [int64, object, datetime64, float64],
      rows = [(Num 0, [Num 1, Str ''A'', Date (2020, 1, 31, 0), Num 100]),
              (Num 1, [Num 2, Str ''B'', Date (2020, 1, 31, 0), Num 200]),
              (Num 2, [Num 1, Str ''A'', Date (2020, 2, 29, 0), Num 0])]\<rparr>"

text \<open>The reshaped example table, null values kept.\<close>

definition full_example :: frame where
  "full_example =
     \<lparr>columns = [''RegionID'', ''RegionName'', ''Date'', ''Value''],
      dtypes = [int64, object, datetime64, float64],
      rows = [(Num 0, [Num 1, Str ''A'', Date (2020, 1, 31, 0), Num 100]),
              (Num 1, [Num 2, Str ''B'', Date (2020, 1, 31, 0), Num 200]),
              (Num 2, [Num 1, Str ''A'', Date (2020, 2, 29, 0), Num 0]),
              (Num 3, [Num 2, Str ''B'', Date (2020, 2, 29, 0), Null])]\<rparr>"

text \<open>The last month of the long example table, its averages and its top region.\<close>

definition window_example :: frame where
  "window_example =
     long_example\<lparr>rows := [(Num 2, [Num 1, Str ''A'', Date (2020, 3, 31, 0), Num 2]),
                             (Num 3, [Num 2, Str ''B'', Date (2020, 3, 31, 0), Num 3])]\<rparr>"

definition avg_example :: frame where
  "avg_example =
     \<lparr>columns = [''RegionID'', ''RegionName'', ''MoM_Change''],
      dtypes = [int64, object, float64],
      rows = [(Num 0, [Num 1, Str ''A'', Num 2]), (Num 1, [Num 2, Str ''B'', Num 3])]\<rparr>"

definition sorted_example :: frame where
  "sorted_example =
     \<lparr>columns = [''RegionID'', ''RegionName'', ''MoM_Change''],
      dtypes = [int64, object, float64],
      rows = [(Num 1, [Num 2, Str ''B'', Num 3]), (Num 0, [Num 1, Str ''A'', Num 2])]\<rparr>"

definition top_example :: frame where
  "top_example =
     \<lparr>columns = [''RegionID'', ''RegionName'', ''MoM_Change''],
      dtypes = [int64, object, float64],
      rows = [(Num 1, [Num 2, Str ''B'', Num 3])]\<rparr>"

text \<open>A long table with a row that has no date.\<close>

definition undated_example :: frame where
  "undated_example =
     \<lparr>columns = [''RegionID'', ''RegionName'', ''EestimationDate'', ''MoM_Change''],
      dtypes = [int64, object, datetime64, float64],
      rows = [(Num 0, [Num 1, Str ''A'', Date (2020, 1, 31, 0), Num 1]),
              (Num 1, [Num 2, Str ''B'', Null, Num 5])]\<rparr>"

text \<open>The example table with a repeated index label: the row of the country and the
  row of region A are both labelled 0.\<close>

definition repeated_labels_example :: frame where
  "repeated_labels_example =
     wide_example\<lparr>rows := [(Num 0, [Num 102001, Num 0, Str ''United States'', Num 300, Num 310]),
                             (Num 0, [Num 1, Num 1, Str ''A'', Num 100, Num 0]),
                             (Num 1, [Num 2, Num 2, Str ''B'', Num 200, Null])]\<rparr>"

text \<open>A wide table with an integer value column beside a float value column.\<close>

definition mixed_example :: frame where
  "mixed_example =
     \<lparr>columns = [''RegionID'', ''RegionName'', ''2020-01-31'', ''2020-02-29''],
      dtypes = [int64, object, int64, float64],
      rows = [(Num 0, [Num 1, Str ''A'', Num 9007199254740993, Num (1 / 2)])]\<rparr>"


text \<open>Five regions, three of them with the same average and the two others with the
  same smaller average; the table of their averages in grouped order; and the table that
  the ranking returns on a processor with AVX-512.\<close>

definition five_regions_example :: frame where
  "five_regions_example =
     \<lparr>columns = [''RegionID'', ''RegionName'', ''EestimationDate'', ''MoM_Change''],
      dtypes = [int64, object, datetime64, float64],
      rows = [(Num 0, [Num 0, Str ''R0'', Date (2020, 3, 31, 0), Num 1]),
              (Num 1, [Num 1, Str ''R1'', Date (2020, 3, 31, 0), Num 2]),
              (Num 2, [Num 2, Str ''R2'', Date (2020, 3, 31, 0), Num 2]),
              (Num 3, [Num 3, Str ''R3'', Date (2020, 3, 31, 0), Num 1]),
              (Num 4, [Num 4, Str ''R4'', Date (2020, 3, 31, 0), Num 2])]\<rparr>"

definition five_avg_example :: frame where
  "five_avg_example =
     \<lparr>columns = [''RegionID'', ''RegionName'', ''MoM_Change''],
      dtypes = [int64, object, float64],
      rows = [(Num 0, [Num 0, Str ''R0'', Num 1]),
              (Num 1, [Num 1, Str ''R1'', Num 2]),
              (Num 2, [Num 2, Str ''R2'', Num 2]),
              (Num 3, [Num 3, Str ''R3'', Num 1]),
              (Num 4, [Num 4, Str ''R4'', Num 2])]\<rparr>"

definition five_ranked_example :: frame where
  "five_ranked_example =
     \<lparr>columns = [''RegionID'', ''RegionName'', ''MoM_Change''],
      dtypes = [int64, object, float64],
      rows = [(Num 1, [Num 1, Str ''R1'', Num 2]),
              (Num 4, [Num 4, Str ''R4'', Num 2]),
              (Num 2, [Num 2, Str ''R2'', Num 2]),
              (Num 0, [Num 0, Str ''R0'', Num 1]),
              (Num 3, [Num 3, Str ''R3'', Num 1])]\<rparr>"

section \<open>The store\<close>

lemma extends_refl: "extends s s"
  by (simp add: extends_def)

lemma extends_pair: "extends s (fst (s, r))"
  by (simp add: extends_def)

lemma extends_trans: "extends s t \<Longrightarrow> extends t u \<Longrightarrow> extends s u"
proof -
  assume a: "extends s t" and b: "extends t u"
  have "take (length s) u = take (length s) (take (length t) u)"
    using a by (simp add: extends_def min_def)
  also have "\<dots> = s" using a b by (simp add: extends_def)
  finally show ?thesis using a b by (simp add: extends_def)
qed

lemma extends_nth: "extends s t \<Longrightarrow> a < length s \<Longrightarrow> t ! a = s ! a"
proof -
  assume a: "extends s t" and b: "a < length s"
  have "take (length s) t ! a = t ! a" using b by simp
  then show ?thesis using a by (simp add: extends_def)
qed

lemma new_frame_extends: "extends s (fst (new_frame r s))"
  by (simp add: new_frame_def extends_def split: sum.splits)

lemma then_do_extends:
  assumes a: "extends s (fst m)" and b: "\<And>x t. extends t (fst (f x t))"
  shows "extends s (fst (then_do m f))"
proof (cases "snd m")
  case (Inl e)
  then show ?thesis using a by (simp add: then_do_def)
next
  case (Inr x)
  have "extends (fst m) (fst (f x (fst m)))" by (rule b)
  with a have "extends s (fst (f x (fst m)))" by (rule extends_trans)
  with Inr show ?thesis by (simp add: then_do_def)
qed

lemma fresh_new: "extends s u \<Longrightarrow> fresh s (new_frame r u)"
  by (cases r) (simp_all add: fresh_def new_frame_def extends_def)

lemma fresh_update:
  "extends s u \<Longrightarrow> length s \<le> a \<Longrightarrow> a < length u \<Longrightarrow> fresh s (update_frame a r u)"
  by (cases r) (simp_all add: fresh_def update_frame_def extends_def)

lemma fresh_same: "extends s u \<Longrightarrow> length s \<le> a \<Longrightarrow> a < length u \<Longrightarrow> fresh s (u, Inr a)"
  by (simp add: fresh_def)

lemma fresh_if: "fresh s A \<Longrightarrow> fresh s B \<Longrightarrow> fresh s (if c then A else B)"
  by simp

lemma fresh_then_do:
  assumes "fresh s m"
    and "\<And>a u. extends s u \<Longrightarrow> length s \<le> a \<Longrightarrow> a < length u \<Longrightarrow> fresh s (f a u)"
  shows "fresh s (then_do m f)"
proof (cases "snd m")
  case (Inl e)
  with assms(1) show ?thesis by (simp add: then_do_def fresh_def)
next
  case (Inr a)
  with assms(1) have "extends s (fst m)" "length s \<le> a" "a < length (fst m)"
    by (simp_all add: fresh_def)
  then have "fresh s (f a (fst m))" by (rule assms(2))
  with Inr show ?thesis by (simp add: then_do_def)
qed

lemma result_new_frame:
  "result_frame (then_do (new_frame r s) k) = bind_sum r (\<lambda>f. result_frame (k (length s) (s @ [f])))"
  by (simp add: result_frame_def then_do_def new_frame_def bind_sum_def split: sum.splits)

lemma result_update_frame:
  "result_frame (then_do (update_frame a r s) k) = bind_sum r (\<lambda>f. result_frame (k a (s[a := f])))"
  by (simp add: result_frame_def then_do_def update_frame_def bind_sum_def split: sum.splits)

lemma result_same_frame: "result_frame (then_do (s, Inr a) k) = result_frame (k a s)"
  by (simp add: result_frame_def then_do_def)

lemma result_return: "result_frame (s, Inr a) = Inr (s ! a)"
  by (simp add: result_frame_def)

lemma bind_sum_Inr: "bind_sum (Inr x) k = k x"
  by (simp add: bind_sum_def)

lemma bind_sum_Inl: "bind_sum (Inl e) k = Inl e"
  by (simp add: bind_sum_def)

lemma bind_sum_return: "bind_sum m Inr = m"
  by (simp add: bind_sum_def split: sum.splits)

lemma bind_sum_assoc: "bind_sum (bind_sum m f) g = bind_sum m (\<lambda>x. bind_sum (f x) g)"
  by (simp add: bind_sum_def split: sum.splits)

lemma bind_sum_eq_Inr: "bind_sum m f = Inr y \<longleftrightarrow> (\<exists>x. m = Inr x \<and> f x = Inr y)"
  by (cases m) (simp_all add: bind_sum_def)

lemma nth_append2: "(t @ [x, y]) ! Suc (length t) = y" "(t @ [x, y]) ! length t = x"
  by (simp_all add: nth_append)

lemma bind_sum_cong:
  "m = m' \<Longrightarrow> (\<And>x. m' = Inr x \<Longrightarrow> k x = k' x) \<Longrightarrow> bind_sum m k = bind_sum m' k'"
  by (auto simp: bind_sum_def split: sum.splits)

section \<open>The ranking function leaves its input alone\<close>

lemma top_regions_extends:
  "extends s (fst (top_regions qs s df top_n region_id_col region_name_col mom_change_col))"
  unfolding top_regions_def
  by (intro then_do_extends new_frame_extends)

lemma get_top_regions_extends:
  "extends s (fst (get_top_regions_by_mom_change qs s df months top_n date_col region_id_col
     region_name_col mom_change_col))"
  unfolding get_top_regions_by_mom_change_def
  by (intro then_do_extends new_frame_extends extends_pair top_regions_extends)

text \<open>
  Claim C10.  \<open>get_top_regions_by_mom_change\<close> never mutates its input: whatever the
  arguments, and whether the call returns or fails, every frame that existed before the
  call (the caller's table among them) is the same frame after the call, with the same
  columns, rows, index labels and values.  Filtering, grouping, sorting and truncation
  all build new frames.
\<close>

theorem get_top_regions_keeps_input:
  "a < length s \<Longrightarrow>
   fst (get_top_regions_by_mom_change qs s df months top_n date_col region_id_col
          region_name_col mom_change_col) ! a = s ! a"
  by (rule extends_nth[OF get_top_regions_extends])

theorem get_top_regions_keeps_input_witness:
  "fst (get_top_regions_by_mom_change argsort_stable [long_example] 0 1 1 ''EestimationDate''
          ''RegionID'' ''RegionName'' ''MoM_Change'') ! 0 = long_example"
  using get_top_regions_keeps_input[of 0 "[long_example]" argsort_stable 0 1 1
      "''EestimationDate''" "''RegionID''" "''RegionName''" "''MoM_Change''"]
  by simp

section \<open>The reshape function: the returned frame and the caller's frame\<close>

lemma filter_mask: "map snd (filter fst (zip (map p xs) xs)) = filter p xs"
  by (induction xs) auto

lemma drop_regions_eq:
  "drop_regions rs f =
     (if ''RegionID'' \<in> set (columns f)
      then Inr (f\<lparr>rows := filter (\<lambda>r. fst r \<notin> set (map fst (excluded_rows f rs))) (rows f)\<rparr>)
      else Inl KeyError)"
  by (simp add: drop_regions_def getitem_def isin_def select_def index_def drop_index_def
      excluded_rows_def filter_mask[where p = "\<lambda>r. snd r ! pos ''RegionID'' (columns f) \<in> set rs", simplified] o_def)

lemma melt_zillow_dataset_result:
  assumes "df < length s"
  shows "result_frame (melt_zillow_dataset parse s df id_fields fields_to_drop regions_to_drop date_col
      value_col index_field drop_na)
   = reshaped parse (s ! df) id_fields fields_to_drop regions_to_drop date_col value_col index_field drop_na"
  unfolding melt_zillow_dataset_def reshaped_def remaining_def
  using assms
  by (cases "length fields_to_drop > 0"; cases "length regions_to_drop > 0"; cases drop_na;
      cases "truthy index_field")
     (simp_all add: result_new_frame result_update_frame result_same_frame result_return bind_sum_Inr
         bind_sum_return bind_sum_assoc nth_append2 nth_append cong: bind_sum_cong)

lemma melt_zillow_dataset_store:
  assumes "df < length s"
  shows "fst (melt_zillow_dataset parse s df id_fields fields_to_drop regions_to_drop date_col
      value_col index_field drop_na) ! df
   = (if length fields_to_drop > 0 \<or> \<not> length regions_to_drop > 0 then s ! df
      else case drop_regions regions_to_drop (s ! df) of Inl e \<Rightarrow> s ! df | Inr f \<Rightarrow> f)"
proof -
  define tail where "tail = (\<lambda>df s.
     then_do (new_frame (melt id_fields date_col value_col (s ! df)) s) (\<lambda>df s.
     then_do (update_frame df (assign_to_datetime parse date_col (s ! df)) s) (\<lambda>df s.
     then_do (if drop_na
              then new_frame (dropna value_col (s ! df)) s else (s, Inr df)) (\<lambda>df s.
     then_do (if truthy index_field
              then update_frame df (set_index (the index_field) (s ! df)) s else (s, Inr df)) (\<lambda>df s.
     (s, Inr df))))))"
  have "fresh t (tail a t)" for a t
    unfolding tail_def
    by (intro fresh_then_do fresh_if fresh_new fresh_update fresh_same extends_refl; assumption)
  then have ext: "extends t (fst (tail a t))" for a t
    by (simp add: fresh_def)
  have tail_nth: "b < length t \<Longrightarrow> fst (tail a t) ! b = t ! b" for a b t
    by (rule extends_nth[OF ext])
  have unfold: "melt_zillow_dataset parse s df id_fields fields_to_drop regions_to_drop date_col
      value_col index_field drop_na =
     then_do (if length fields_to_drop > 0
              then new_frame (drop_columns fields_to_drop (s ! df)) s else (s, Inr df)) (\<lambda>df s.
     then_do (if length regions_to_drop > 0
              then update_frame df (drop_regions regions_to_drop (s ! df)) s else (s, Inr df)) tail)"
    unfolding melt_zillow_dataset_def tail_def by (rule refl)
  show ?thesis
    unfolding unfold using assms
    by (cases "drop_columns fields_to_drop (s ! df)"; cases "drop_regions regions_to_drop (s ! df)")
      (auto simp: then_do_def new_frame_def update_frame_def tail_nth nth_append split: sum.splits)
qed

lemma excluded_rows_after:
  "excluded_rows (f\<lparr>rows := filter (\<lambda>r. fst r \<notin> fst ` set (excluded_rows f rs)) (rows f)\<rparr>) rs = []"
  by (auto simp: excluded_rows_def filter_empty_conv)

text \<open>
  Claim C8, as amended.  The row drop of line 16 works in place on whatever \<open>df\<close>
  refers to at that moment.  When no columns are dropped (\<open>fields_to_drop\<close> is empty),
  the exclusion set is not empty and the table has a column \<^verbatim>\<open>RegionID\<close>, that is
  the caller's table: after the call, also after a call that fails at a later step, the
  caller's table has the same columns and dtypes, has lost every row that carries the index label
  of an excluded row (its rows are \<open>kept_rows\<close>), and holds no excluded row any more.  In every other case, in
  particular whenever \<open>fields_to_drop\<close> is not empty (line 13 has then rebound \<open>df\<close>
  to a new frame), the caller's table is after the call what it was before.
\<close>

theorem melt_zillow_dataset_input_after:
  assumes "df < length s"
  shows "(let before = s ! df;
              after = fst (melt_zillow_dataset parse s df id_fields fields_to_drop regions_to_drop
                        date_col value_col index_field drop_na) ! df
          in if fields_to_drop = [] \<and> regions_to_drop \<noteq> [] \<and> ''RegionID'' \<in> set (columns before)
             then columns after = columns before \<and>
                  dtypes after = dtypes before \<and>
                  rows after = kept_rows before regions_to_drop \<and>
                  excluded_rows after regions_to_drop = []
             else after = before)"
  unfolding Let_def melt_zillow_dataset_store[OF assms]
  by (simp add: drop_regions_eq excluded_rows_after kept_rows_def)

theorem melt_zillow_dataset_input_after_witness:
  "fst (melt_zillow_dataset example_parse [wide_example] 0 [''RegionID'', ''RegionName'']
          [] [US_COUNTRY_REGION_ID] ''Date'' ''Value'' None True) ! 0
   = wide_example\<lparr>rows := [(Num 1, [Num 1, Num 1, Str ''A'', Num 100, Num 0]),
                            (Num 2, [Num 2, Num 2, Str ''B'', Num 200, Null])]\<rparr>"
proof -
  have a: "(0::nat) < length [wide_example]" by simp
  have b: "kept_rows wide_example [US_COUNTRY_REGION_ID]
      = [(Num 1, [Num 1, Num 1, Str ''A'', Num 100, Num 0]),
         (Num 2, [Num 2, Num 2, Str ''B'', Num 200, Null])]"
    by code_simp
  have c: "''RegionID'' \<in> set (columns wide_example)" by code_simp
  show ?thesis
    using melt_zillow_dataset_input_after[OF a, of example_parse "[''RegionID'', ''RegionName'']"
        "[]" "[US_COUNTRY_REGION_ID]" "''Date''" "''Value''" None True] b c
    by (simp add: Let_def)
qed

text \<open>The claim as stated fails when a column is dropped first: the exclusion set is
  not empty and the table has an excluded row, yet the caller's table is unchanged.\<close>

theorem melt_zillow_dataset_input_after_counterexample:
  "fst (melt_zillow_dataset example_parse [wide_example] 0 [''RegionID'', ''RegionName'']
          [''SizeRank''] [US_COUNTRY_REGION_ID] ''Date'' ''Value'' None True) ! 0 = wide_example
   \<and> excluded_rows wide_example [US_COUNTRY_REGION_ID]
       = [(Num 0, [Num 102001, Num 0, Str ''United States'', Num 300, Num 310])]"
  by code_simp

lemma result_frame_Inl: "result_frame m = Inl e \<longleftrightarrow> snd m = Inl e"
  by (simp add: result_frame_def split: sum.splits)

lemma drop_columns_cases:
  "drop_columns fs f = Inl KeyError \<or> (\<exists>g. drop_columns fs f = Inr g \<and> columns g = filter (\<lambda>c. c \<notin> set fs) (columns f))"
  by (simp add: drop_columns_def)

text \<open>
  Claim C7, as amended.  The exclusion step looks the region identifier up under the
  fixed label \<^verbatim>\<open>RegionID\<close>: with a non-empty exclusion set (the default), a call on
  a table that has no column of that label fails with a missing-key error, whatever the
  identifier columns of the caller are called.
\<close>

theorem exclusion_needs_RegionID:
  assumes "df < length s" "regions_to_drop \<noteq> []" "''RegionID'' \<notin> set (columns (s ! df))"
  shows "snd (melt_zillow_dataset parse s df id_fields fields_to_drop regions_to_drop date_col
            value_col index_field drop_na) = Inl KeyError"
proof -
  have "remaining (s ! df) fields_to_drop regions_to_drop = Inl KeyError"
    using drop_columns_cases[of fields_to_drop "s ! df"] assms(2,3)
    by (auto simp: remaining_def bind_sum_def drop_regions_eq)
  then have "result_frame (melt_zillow_dataset parse s df id_fields fields_to_drop regions_to_drop date_col
            value_col index_field drop_na) = Inl KeyError"
    by (simp add: melt_zillow_dataset_result[OF assms(1)] reshaped_def bind_sum_Inl)
  then show ?thesis by (simp add: result_frame_Inl)
qed

theorem exclusion_needs_RegionID_witness:
  "snd (melt_zillow_dataset example_parse [wide_renamed] 0 [''ZipCode'', ''RegionName'']
          [''SizeRank''] [US_COUNTRY_REGION_ID] ''Date'' ''Value'' None True) = Inl KeyError"
proof -
  have a: "(0::nat) < length [wide_renamed]" by simp
  have b: "[US_COUNTRY_REGION_ID] \<noteq> []" by simp
  have c: "''RegionID'' \<notin> set (columns ([wide_renamed] ! 0))" by code_simp
  show ?thesis
    by (rule exclusion_needs_RegionID[OF a b c])
qed

text \<open>The claim as stated fails: the same well-formed table, with the same region
  identifiers, is reshaped when the identifier column is labelled \<^verbatim>\<open>RegionID\<close> and
  is refused when the caller labels it \<^verbatim>\<open>ZipCode\<close> and lists that label among the
  identifier columns.\<close>

theorem region_id_name_counterexample:
  "wf_frame wide_renamed \<and>
   snd (melt_zillow_dataset example_parse [wide_renamed] 0 [''ZipCode'', ''RegionName'']
          [''SizeRank''] [US_COUNTRY_REGION_ID] ''Date'' ''Value'' None True) = Inl KeyError \<and>
   result_frame (melt_zillow_dataset example_parse [wide_example] 0 [''RegionID'', ''RegionName'']
          [''SizeRank''] [US_COUNTRY_REGION_ID] ''Date'' ''Value'' None True) = 
   Inr \<lparr>columns = [''RegionID'', ''RegionName'', ''Date'', ''Value''],
        dtypes = [int64, object, datetime64, float64],
        rows = [(Num 0, [Num 1, Str ''A'', Date (2020, 1, 31, 0), Num 100]),
                (Num 1, [Num 2, Str ''B'', Date (2020, 1, 31, 0), Num 200]),
                (Num 2, [Num 1, Str ''A'', Date (2020, 2, 29, 0), Num 0])]\<rparr>"
  by code_simp

section \<open>Lists, positions and cells\<close>

lemma pos_less: "c \<in> set xs \<Longrightarrow> pos c xs < length xs"
  by (induction xs) auto

lemma nth_pos: "c \<in> set xs \<Longrightarrow> xs ! pos c xs = c"
  by (induction xs) auto

lemma pos_append_in: "c \<in> set xs \<Longrightarrow> pos c (xs @ ys) = pos c xs"
  by (induction xs) auto

lemma pos_append_notin: "c \<notin> set xs \<Longrightarrow> pos c (xs @ ys) = length xs + pos c ys"
  by (induction xs) auto

lemma pos_nth: "distinct xs \<Longrightarrow> i < length xs \<Longrightarrow> pos (xs ! i) xs = i"
proof (induction xs arbitrary: i)
  case Nil
  then show ?case by simp
next
  case (Cons x xs)
  then show ?case by (cases i) auto
qed

lemma pos_inj: "c \<in> set xs \<Longrightarrow> pos c xs = pos d xs \<Longrightarrow> d \<in> set xs \<Longrightarrow> c = d"
  by (metis nth_pos)

lemma map_snd_range_index: "map snd (range_index css) = css"
  by (simp add: range_index_def)

lemma length_range_index: "length (range_index css) = length css"
  by (simp add: range_index_def)

lemma nth_range_index: "k < length css \<Longrightarrow> range_index css ! k = (Num (of_nat k), css ! k)"
  by (simp add: range_index_def)

lemma length_concat_rect: "length (concat (map (\<lambda>v. map (g v) xs) vs)) = length vs * length xs"
  by (induction vs) auto

lemma nth_concat_rect:
  "i < length xs \<Longrightarrow> j < length vs \<Longrightarrow>
   concat (map (\<lambda>v. map (g v) xs) vs) ! (j * length xs + i) = g (vs ! j) (xs ! i)"
proof (induction vs arbitrary: j)
  case Nil
  then show ?case by simp
next
  case (Cons v vs)
  show ?case
  proof (cases j)
    case 0
    with Cons.prems show ?thesis by (simp add: nth_append)
  next
    case (Suc j')
    with Cons.prems have "j' < length vs" by simp
    from Cons.IH[OF Cons.prems(1) this] Suc show ?thesis
      by (simp add: nth_append add.assoc)
  qed
qed

lemma array_strptime_Inr:
  "array_strptime p cs = Inr ds \<longleftrightarrow> map (datetime_of p) cs = map Some ds"
proof (induction cs arbitrary: ds)
  case Nil
  then show ?case by auto
next
  case (Cons c cs)
  show ?case
  proof (cases "datetime_of p c")
    case None
    then show ?thesis by (cases ds) auto
  next
    case (Some d)
    show ?thesis
    proof (cases "array_strptime p cs")
      case (Inl e)
      have "map (datetime_of p) cs \<noteq> map Some ds'" for ds'
        using Cons.IH[of ds'] Inl by simp
      with Some Inl show ?thesis by (cases ds) auto
    next
      case (Inr ds')
      then have "map (datetime_of p) cs = map Some ds'"
        using Cons.IH[of ds'] by simp
      with Some Inr show ?thesis by (cases ds) (auto simp: inj_map_eq_map[OF inj_Some])
    qed
  qed
qed

lemma first_label_Cons: "first_label (Str l # cs) = Some l"
  by (simp add: first_label_def)

lemma remove_nth_pos:
  "distinct cols \<Longrightarrow> x \<in> set cols \<Longrightarrow> x \<noteq> c \<Longrightarrow> length cs = length cols \<Longrightarrow>
   remove_nth (pos c cols) cs ! pos x (remove_nth (pos c cols) cols) = cs ! pos x cols"
proof (induction cols arbitrary: cs)
  case Nil
  then show ?case by simp
next
  case (Cons a cols)
  then obtain b bs where cs: "cs = b # bs" by (cases cs) auto
  show ?case
  proof (cases "a = c")
    case True
    with Cons.prems cs show ?thesis by (auto simp: remove_nth_def)
  next
    case False
    show ?thesis
    proof (cases "a = x")
      case True
      with False cs show ?thesis by (simp add: remove_nth_def)
    next
      case ax: False
      from Cons.prems ax have "x \<in> set cols" "distinct cols" "length bs = length cols"
        using cs by auto
      from Cons.IH[OF this(2) this(1) Cons.prems(3) this(3)] False ax cs show ?thesis
        by (simp add: remove_nth_def)
    qed
  qed
qed

lemma keep_cells_pos:
  "distinct cols \<Longrightarrow> c \<in> set cols \<Longrightarrow> p c \<Longrightarrow> length cs = length cols \<Longrightarrow>
   keep_cells p cols cs ! pos c (filter p cols) = cs ! pos c cols"
proof (induction cols arbitrary: cs)
  case Nil
  then show ?case by simp
next
  case (Cons a cols)
  then obtain b bs where cs: "cs = b # bs" by (cases cs) auto
  show ?case
  proof (cases "a = c")
    case True
    with Cons.prems cs show ?thesis by (simp add: keep_cells_def)
  next
    case False
    with Cons.prems cs have "distinct cols" "c \<in> set cols" "length bs = length cols" by auto
    from Cons.IH[OF this(1,2) Cons.prems(3) this(3)] False cs show ?thesis
      by (simp add: keep_cells_def)
  qed
qed

lemma length_keep_cells:
  "length cs = length cols \<Longrightarrow> length (keep_cells p cols cs) = length (filter p cols)"
proof (induction cols arbitrary: cs)
  case Nil
  then show ?case by (simp add: keep_cells_def)
next
  case (Cons a cols)
  then obtain b bs where cs: "cs = b # bs" by (cases cs) auto
  with Cons show ?case by (simp add: keep_cells_def)
qed

section \<open>The steps of the reshape function\<close>

lemma melt_Inr:
  assumes "melt ids dc vc f2 = Inr f3"
  shows "set ids \<subseteq> set (columns f2)" "vc \<notin> set (columns f2)" "melted ids dc vc f3"
    "rows f3 = range_index (concat (map (\<lambda>v.
        map (\<lambda>r. map (\<lambda>i. snd r ! pos i (columns f2)) ids
                  @ [Str v, astype (value_dtype f2 ids) (dtype_of f2 v) (snd r ! pos v (columns f2))])
          (rows f2))
        (filter (\<lambda>c. c \<notin> set ids) (columns f2))))"
proof -
  from assms have c: "vc \<notin> set (columns f2)" "set ids \<subseteq> set (columns f2)" "distinct ids"
    "dc \<notin> set ids" "dc \<noteq> vc"
    by (auto simp: melt_def split: if_splits)
  with assms have f3: "columns f3 = ids @ [dc, vc]"
    "rows f3 = range_index (concat (map (\<lambda>v.
        map (\<lambda>r. map (\<lambda>i. snd r ! pos i (columns f2)) ids
                  @ [Str v, astype (value_dtype f2 ids) (dtype_of f2 v) (snd r ! pos v (columns f2))])
          (rows f2))
        (filter (\<lambda>c. c \<notin> set ids) (columns f2))))"
    by (auto simp: melt_def value_dtype_def split: if_splits)
  show "set ids \<subseteq> set (columns f2)" "vc \<notin> set (columns f2)" by (rule c)+
  show "rows f3 = range_index (concat (map (\<lambda>v.
        map (\<lambda>r. map (\<lambda>i. snd r ! pos i (columns f2)) ids
                  @ [Str v, astype (value_dtype f2 ids) (dtype_of f2 v) (snd r ! pos v (columns f2))])
          (rows f2))
        (filter (\<lambda>c. c \<notin> set ids) (columns f2))))"
    by (rule f3(2))
  have "\<forall>r \<in> set (rows f3). length (snd r) = length ids + 2"
  proof
    fix r assume "r \<in> set (rows f3)"
    then have "snd r \<in> set (map snd (rows f3))" by simp
    then show "length (snd r) = length ids + 2"
      unfolding f3(2) by (auto simp: map_snd_range_index)
  qed
  with c show "melted ids dc vc f3"
    by (auto simp: melted_def f3(1) list_all_iff)
qed

lemma melted_pos:
  assumes "melted ids dc vc f"
  shows "pos dc (columns f) = length ids" "pos vc (columns f) = Suc (length ids)"
    "c \<in> set ids \<Longrightarrow> pos c (columns f) = pos c ids"
    "dc \<in> set (columns f)" "vc \<in> set (columns f)"
  using assms by (auto simp: melted_def pos_append_in pos_append_notin)

lemma assign_to_datetime_Inr:
  assumes "melted ids dc vc f3" "assign_to_datetime parse dc f3 = Inr f4"
  defines "p \<equiv> parse (first_label (map (\<lambda>r. snd r ! length ids) (rows f3)))"
  shows "list_all (\<lambda>r. datetime_of p (snd r ! length ids) \<noteq> None) (rows f3)"
    "rows f4 = map (\<lambda>r. (fst r, (snd r)[length ids := the (datetime_of p (snd r ! length ids))])) (rows f3)"
    "columns f4 = columns f3"
    "melted ids dc vc f4"
proof -
  let ?g = "\<lambda>r. snd r ! length ids"
  from assms(1,2) obtain ds where ds: "to_datetime parse (map ?g (rows f3)) = Inr ds"
    "f4 = setitem f3 dc datetime64 ds"
    by (auto simp: assign_to_datetime_def getitem_def melted_pos split: sum.splits if_splits)
  from ds(1) have m: "map (\<lambda>r. datetime_of p (?g r)) (rows f3) = map Some ds"
    by (simp add: to_datetime_def array_strptime_Inr o_def p_def)
  show a: "list_all (\<lambda>r. datetime_of p (snd r ! length ids) \<noteq> None) (rows f3)"
    unfolding list_all_iff
  proof
    fix r assume "r \<in> set (rows f3)"
    then have "datetime_of p (?g r) \<in> set (map (\<lambda>r. datetime_of p (?g r)) (rows f3))" by simp
    then show "datetime_of p (?g r) \<noteq> None" unfolding m by auto
  qed
  have "map the (map (\<lambda>r. datetime_of p (?g r)) (rows f3)) = map the (map Some ds)"
    by (simp only: m)
  then have dseq: "ds = map (\<lambda>r. the (datetime_of p (?g r))) (rows f3)"
    by (simp add: o_def)
  have z: "zip xs (map h xs) = map (\<lambda>x. (x, h x)) xs" for xs :: "(cell \<times> cell list) list" and h :: "cell \<times> cell list \<Rightarrow> cell"
    by (induction xs) auto
  show b: "rows f4 = map (\<lambda>r. (fst r, (snd r)[length ids := the (datetime_of p (snd r ! length ids))])) (rows f3)"
    unfolding ds(2) setitem_def dseq z using assms(1)
    by (simp add: melted_pos o_def)
  show c: "columns f4 = columns f3"
    unfolding ds(2) setitem_def by simp
  show "melted ids dc vc f4"
    using assms(1) unfolding melted_def c b by (auto simp: list_all_iff)
qed

lemma dropna_melted:
  assumes "melted ids dc vc f"
  shows "dropna vc f = Inr (f\<lparr>rows := filter (\<lambda>r. snd r ! Suc (length ids) \<noteq> Null) (rows f)\<rparr>)"
    "melted ids dc vc (f\<lparr>rows := filter p (rows f)\<rparr>)"
  using assms by (auto simp: dropna_def melted_pos) (auto simp: melted_def list_all_iff)

lemma finish_Inr:
  assumes "(if truthy idx then set_index (the idx) f else Inr f) = Inr out"
  shows "rows out = map (finish_row idx (columns f)) (rows f)"
    "columns out = (if truthy idx then remove_nth (pos (the idx) (columns f)) (columns f) else columns f)"
    "truthy idx \<Longrightarrow> the idx \<in> set (columns f)"
  using assms by (auto simp: set_index_def finish_row_def[abs_def] split: if_splits)

lemma field_finish_row:
  assumes "melted ids dc vc f" "(if truthy idx then set_index (the idx) f else Inr f) = Inr out"
    "x \<in> set (columns f)" "r \<in> set (rows f)"
  shows "field out idx x (finish_row idx (columns f) r) = snd r ! pos x (columns f)"
proof (cases "truthy idx")
  case False
  with assms(2) show ?thesis by (simp add: field_def finish_row_def)
next
  case True
  from assms(1,4) have len: "length (snd r) = length (columns f)" and d: "distinct (columns f)"
    by (auto simp: melted_def list_all_iff)
  show ?thesis
  proof (cases "the idx = x")
    case eq: True
    with True show ?thesis by (simp add: field_def finish_row_def)
  next
    case ne: False
    then have "x \<noteq> the idx" by auto
    from remove_nth_pos[OF d assms(3) this len] True ne finish_Inr(2)[OF assms(2)]
    show ?thesis by (simp add: field_def finish_row_def)
  qed
qed

lemma remaining_no_excluded:
  assumes "remaining f fs rs = Inr f2"
  shows "excluded_rows f2 rs = []"
proof (cases "rs = []")
  case True
  then show ?thesis by (simp add: excluded_rows_def)
next
  case False
  with assms obtain f1 where "drop_regions rs f1 = Inr f2"
    by (auto simp: remaining_def bind_sum_eq_Inr)
  then show ?thesis
    by (auto simp: drop_regions_eq excluded_rows_after split: if_splits)
qed

lemma reshaped_Inr:
  assumes "reshaped parse df0 ids fs rs dc vc idx drop_na = Inr out"
  obtains f2 f3 f4 f5 where "remaining df0 fs rs = Inr f2" "melt ids dc vc f2 = Inr f3"
    "assign_to_datetime parse dc f3 = Inr f4"
    "f5 = (if drop_na then f4\<lparr>rows := filter (\<lambda>r. snd r ! Suc (length ids) \<noteq> Null) (rows f4)\<rparr> else f4)"
    "(if truthy idx then set_index (the idx) f5 else Inr f5) = Inr out"
    "melted ids dc vc f3" "melted ids dc vc f4" "melted ids dc vc f5"
proof -
  from assms obtain f2 f3 f4 f5 where a: "remaining df0 fs rs = Inr f2" "melt ids dc vc f2 = Inr f3"
    "assign_to_datetime parse dc f3 = Inr f4" "(if drop_na then dropna vc f4 else Inr f4) = Inr f5"
    "(if truthy idx then set_index (the idx) f5 else Inr f5) = Inr out"
    unfolding reshaped_def bind_sum_eq_Inr by blast
  have m3: "melted ids dc vc f3" by (rule melt_Inr(3)[OF a(2)])
  have m4: "melted ids dc vc f4" by (rule assign_to_datetime_Inr(4)[OF m3 a(3)])
  have f5: "f5 = (if drop_na then f4\<lparr>rows := filter (\<lambda>r. snd r ! Suc (length ids) \<noteq> Null) (rows f4)\<rparr> else f4)"
    using a(4) dropna_melted(1)[OF m4] by (auto split: if_splits)
  have m5: "melted ids dc vc f5"
    unfolding f5 using m4 dropna_melted(2)[OF m4] by simp
  from a(1,2,3) f5 a(5) m3 m4 m5 show thesis by (rule that)
qed

lemma melt_row:
  assumes "melt ids dc vc f2 = Inr f3" "r \<in> set (rows f3)"
  obtains r2 v x where "r2 \<in> set (rows f2)" "v \<in> set (columns f2)" "v \<notin> set ids"
    "snd r = map (\<lambda>i. snd r2 ! pos i (columns f2)) ids @ [Str v, x]"
proof -
  from assms(2) have "snd r \<in> set (map snd (rows f3))" by simp
  then show thesis
    unfolding melt_Inr(4)[OF assms(1)] map_snd_range_index
    by (auto intro: that)
qed

section \<open>Excluded regions\<close>

text \<open>
  Claim C6.  For every table and every exclusion set, when \<^verbatim>\<open>RegionID\<close> is one of the
  identifier columns, no row of the frame that \<open>melt_zillow_dataset\<close> returns carries
  a region identifier of the exclusion set (in the column \<^verbatim>\<open>RegionID\<close>, or in the
  index when that column was made the index).  With the default exclusion set this says
  that the identifier of the country aggregate never appears.
\<close>

theorem excluded_regions_absent:
  assumes "df < length s" and "''RegionID'' \<in> set id_fields"
    and "result_frame (melt_zillow_dataset parse s df id_fields fields_to_drop regions_to_drop
           date_col value_col index_field drop_na) = Inr out"
  shows "\<forall>r \<in> set (rows out). field out index_field ''RegionID'' r \<notin> set regions_to_drop"
proof -
  from assms(3) have "reshaped parse (s ! df) id_fields fields_to_drop regions_to_drop date_col
      value_col index_field drop_na = Inr out"
    by (simp add: melt_zillow_dataset_result[OF assms(1)])
  then obtain f2 f3 f4 f5 where st: "remaining (s ! df) fields_to_drop regions_to_drop = Inr f2"
    "melt id_fields date_col value_col f2 = Inr f3"
    "assign_to_datetime parse date_col f3 = Inr f4"
    "f5 = (if drop_na then f4\<lparr>rows := filter (\<lambda>r. snd r ! Suc (length id_fields) \<noteq> Null) (rows f4)\<rparr> else f4)"
    "(if truthy index_field then set_index (the index_field) f5 else Inr f5) = Inr out"
    "melted id_fields date_col value_col f3" "melted id_fields date_col value_col f4"
    "melted id_fields date_col value_col f5"
    by (rule reshaped_Inr)
  let ?p = "pos ''RegionID'' id_fields"
  have p: "?p < length id_fields" "id_fields ! ?p = ''RegionID''"
    using assms(2) by (simp_all add: pos_less nth_pos)
  have e2: "\<forall>r \<in> set (rows f2). snd r ! pos ''RegionID'' (columns f2) \<notin> set regions_to_drop"
    using remaining_no_excluded[OF st(1)] by (auto simp: excluded_rows_def filter_empty_conv)
  have e3: "snd r ! ?p \<notin> set regions_to_drop" if "r \<in> set (rows f3)" for r
  proof -
    from st(2) that obtain r2 v x where r2: "r2 \<in> set (rows f2)"
      "snd r = map (\<lambda>i. snd r2 ! pos i (columns f2)) id_fields @ [Str v, x]"
      by (rule melt_row)
    from r2(2) p have "snd r ! ?p = snd r2 ! pos ''RegionID'' (columns f2)"
      by (simp add: nth_append)
    with e2 r2(1) show ?thesis by simp
  qed
  have e4: "snd r ! ?p \<notin> set regions_to_drop" if "r \<in> set (rows f4)" for r
    using that e3 p(1) unfolding assign_to_datetime_Inr(2)[OF st(6) st(3)] by auto
  have e5: "snd r ! ?p \<notin> set regions_to_drop" if "r \<in> set (rows f5)" for r
    using that e4 unfolding st(4) by (auto split: if_splits)
  have c5: "''RegionID'' \<in> set (columns f5)" "pos ''RegionID'' (columns f5) = ?p"
    using st(8) assms(2) by (auto simp: melted_def pos_append_in)
  show ?thesis
  proof
    fix r assume "r \<in> set (rows out)"
    then obtain r5 where r5: "r5 \<in> set (rows f5)" "r = finish_row index_field (columns f5) r5"
      unfolding finish_Inr(1)[OF st(5)] by auto
    from field_finish_row[OF st(8) st(5) c5(1) r5(1)] r5(2) c5(2)
    have "field out index_field ''RegionID'' r = snd r5 ! ?p" by simp
    with e5[OF r5(1)] show "field out index_field ''RegionID'' r \<notin> set regions_to_drop" by simp
  qed
qed

theorem excluded_regions_absent_witness:
  "list_all (\<lambda>r. field reshaped_example None ''RegionID'' r \<notin> set [US_COUNTRY_REGION_ID])
     (rows reshaped_example)"
proof -
  have a: "(0::nat) < length [wide_example]" by simp
  have b: "''RegionID'' \<in> set [''RegionID'', ''RegionName'']" by simp
  have c: "result_frame (melt_zillow_dataset example_parse [wide_example] 0
             [''RegionID'', ''RegionName''] [''SizeRank''] [US_COUNTRY_REGION_ID] ''Date'' ''Value''
             None True) = Inr reshaped_example"
    by code_simp
  show ?thesis
    using excluded_regions_absent[OF a b c] by (simp add: list_all_iff)
qed

lemma filter_map_swap: "(\<And>x. x \<in> set xs \<Longrightarrow> q (g x) = p x) \<Longrightarrow> filter q (map g xs) = map g (filter p xs)"
  by (induction xs) auto

section \<open>Dropping null values\<close>

text \<open>
  Claim C5.  When the drop flag is set, \<open>melt_zillow_dataset\<close> drops exactly the rows
  whose value is null: the call with the flag returns whenever the call without it does,
  with the same columns, and its rows are the rows of the unflagged result whose value
  (the cell of the value column, or the index label when the value column was made the
  index) is not null, in the same order.  In particular every row whose value is zero
  is retained.
\<close>

theorem dropna_drops_only_nulls:
  assumes "df < length s"
    and "result_frame (melt_zillow_dataset parse s df id_fields fields_to_drop regions_to_drop
           date_col value_col index_field True) = Inr out"
  shows "\<exists>full. result_frame (melt_zillow_dataset parse s df id_fields fields_to_drop regions_to_drop
             date_col value_col index_field False) = Inr full \<and>
           columns out = columns full \<and>
           rows out = filter (\<lambda>r. field full index_field value_col r \<noteq> Null) (rows full) \<and>
           (\<forall>r \<in> set (rows full). field full index_field value_col r = Num 0 \<longrightarrow> r \<in> set (rows out))"
proof -
  from assms(2) have "reshaped parse (s ! df) id_fields fields_to_drop regions_to_drop date_col
      value_col index_field True = Inr out"
    by (simp add: melt_zillow_dataset_result[OF assms(1)])
  then obtain f2 f3 f4 f5 where st: "remaining (s ! df) fields_to_drop regions_to_drop = Inr f2"
    "melt id_fields date_col value_col f2 = Inr f3"
    "assign_to_datetime parse date_col f3 = Inr f4"
    "f5 = (if True then f4\<lparr>rows := filter (\<lambda>r. snd r ! Suc (length id_fields) \<noteq> Null) (rows f4)\<rparr> else f4)"
    "(if truthy index_field then set_index (the index_field) f5 else Inr f5) = Inr out"
    "melted id_fields date_col value_col f3" "melted id_fields date_col value_col f4"
    "melted id_fields date_col value_col f5"
    by (rule reshaped_Inr)
  have f5: "f5 = f4\<lparr>rows := filter (\<lambda>r. snd r ! Suc (length id_fields) \<noteq> Null) (rows f4)\<rparr>"
    using st(4) by simp
  have cols: "columns f5 = columns f4" by (simp add: f5)
  have "\<exists>full. (if truthy index_field then set_index (the index_field) f4 else Inr f4) = Inr full"
    using st(5) by (auto simp: set_index_def cols split: if_splits)
  then obtain full where full: "(if truthy index_field then set_index (the index_field) f4 else Inr f4) = Inr full"
    by blast
  have r0: "reshaped parse (s ! df) id_fields fields_to_drop regions_to_drop date_col
      value_col index_field False = Inr full"
    unfolding reshaped_def using st(1,2,3) full by (simp add: bind_sum_Inr)
  have c: "columns out = columns full"
    using finish_Inr(2)[OF st(5)] finish_Inr(2)[OF full] cols by simp
  have vc: "value_col \<in> set (columns f4)" "pos value_col (columns f4) = Suc (length id_fields)"
    using melted_pos[OF st(7)] by simp_all
  have fld: "field full index_field value_col (finish_row index_field (columns f4) r)
        = snd r ! Suc (length id_fields)" if "r \<in> set (rows f4)" for r
    using field_finish_row[OF st(7) full vc(1) that] vc(2) by simp
  have "rows out = map (finish_row index_field (columns f4)) (filter (\<lambda>r. snd r ! Suc (length id_fields) \<noteq> Null) (rows f4))"
    using finish_Inr(1)[OF st(5)] by (simp add: f5)
  also have "\<dots> = filter (\<lambda>r. field full index_field value_col r \<noteq> Null) (map (finish_row index_field (columns f4)) (rows f4))"
    by (rule filter_map_swap[symmetric]) (simp add: fld)
  finally have rws: "rows out = filter (\<lambda>r. field full index_field value_col r \<noteq> Null) (rows full)"
    by (simp add: finish_Inr(1)[OF full])
  have "result_frame (melt_zillow_dataset parse s df id_fields fields_to_drop regions_to_drop
             date_col value_col index_field False) = Inr full"
    using r0 by (simp add: melt_zillow_dataset_result[OF assms(1)])
  with c rws show ?thesis by auto
qed

theorem dropna_drops_only_nulls_witness:
  "result_frame (melt_zillow_dataset example_parse [wide_example] 0
             [''RegionID'', ''RegionName''] [''SizeRank''] [US_COUNTRY_REGION_ID] ''Date'' ''Value''
             None False) = Inr full_example \<and>
   rows reshaped_example = filter (\<lambda>r. field full_example None ''Value'' r \<noteq> Null) (rows full_example) \<and>
   field full_example None ''Value'' (Num 2, [Num 1, Str ''A'', Date (2020, 2, 29, 0), Num 0]) = Num 0 \<and>
   (Num 2, [Num 1, Str ''A'', Date (2020, 2, 29, 0), Num 0]) \<in> set (rows reshaped_example)"
proof -
  have a: "(0::nat) < length [wide_example]" by simp
  have c: "result_frame (melt_zillow_dataset example_parse [wide_example] 0
             [''RegionID'', ''RegionName''] [''SizeRank''] [US_COUNTRY_REGION_ID] ''Date'' ''Value''
             None True) = Inr reshaped_example"
    by code_simp
  have d: "(Num 2, [Num 1, Str ''A'', Date (2020, 2, 29, 0), Num 0]) \<in> set (rows full_example)"
    by (simp add: full_example_def)
  have e: "field full_example None ''Value'' (Num 2, [Num 1, Str ''A'', Date (2020, 2, 29, 0), Num 0]) = Num 0"
    by code_simp
  from dropna_drops_only_nulls[OF a c] obtain full where
    f: "result_frame (melt_zillow_dataset example_parse [wide_example] 0
             [''RegionID'', ''RegionName''] [''SizeRank''] [US_COUNTRY_REGION_ID] ''Date'' ''Value''
             None False) = Inr full"
      "rows reshaped_example = filter (\<lambda>r. field full None ''Value'' r \<noteq> Null) (rows full)"
      "\<forall>r \<in> set (rows full). field full None ''Value'' r = Num 0 \<longrightarrow> r \<in> set (rows reshaped_example)"
    by blast
  have g: "result_frame (melt_zillow_dataset example_parse [wide_example] 0
             [''RegionID'', ''RegionName''] [''SizeRank''] [US_COUNTRY_REGION_ID] ''Date'' ''Value''
             None False) = Inr full_example"
    by code_simp
  with f(1) have "full = full_example" by simp
  with f g d e show ?thesis by blast
qed

section \<open>Rows times columns\<close>

lemma keep_cells_all: "length cs = length cols \<Longrightarrow> keep_cells (\<lambda>c. True) cols cs = cs"
proof (induction cols arbitrary: cs)
  case Nil
  then show ?case by (simp add: keep_cells_def)
next
  case (Cons a cols)
  then obtain b bs where cs: "cs = b # bs" by (cases cs) auto
  with Cons have "keep_cells (\<lambda>c. True) cols bs = bs" by simp
  with cs show ?case by (simp add: keep_cells_def)
qed

lemma drop_columns_Nil: "wf_frame df \<Longrightarrow> drop_columns [] df = Inr df"
proof -
  assume wf: "wf_frame df"
  have "map (\<lambda>r. (fst r, keep_cells (\<lambda>c. True) (columns df) (snd r))) (rows df) = map (\<lambda>r. r) (rows df)"
    by (rule map_cong[OF refl]) (use wf in \<open>auto simp: wf_frame_def list_all_iff keep_cells_all\<close>)
  moreover have "keep_cells (\<lambda>c. True) (columns df) (dtypes df) = dtypes df"
    using wf by (simp add: wf_frame_def keep_cells_all)
  ultimately show ?thesis by (simp add: drop_columns_def)
qed

lemma remaining_wf:
  assumes wf: "wf_frame df0" and rem: "remaining df0 fs rs = Inr f2"
  shows "columns f2 = filter (\<lambda>c. c \<notin> set fs) (columns df0)"
    and "rows f2 = map (\<lambda>r. (fst r, keep_cells (\<lambda>c. c \<notin> set fs) (columns df0) (snd r))) (kept_rows df0 rs)"
    and "c \<in> set (columns f2) \<Longrightarrow> dtype_of f2 c = dtype_of df0 c"
proof -
  let ?p = "\<lambda>c. c \<notin> set fs"
  let ?strip = "\<lambda>r. (fst r, keep_cells ?p (columns df0) (snd r))"
  from rem obtain f1 where f1: "drop_columns fs df0 = Inr f1"
    and f2: "(if length rs > 0 then drop_regions rs f1 else Inr f1) = Inr f2"
    using drop_columns_Nil[OF wf]
    by (cases "fs = []") (auto simp: remaining_def bind_sum_eq_Inr)
  from f1 have c1: "columns f1 = filter ?p (columns df0)" and r1: "rows f1 = map ?strip (rows df0)"
    and d1: "dtypes f1 = keep_cells ?p (columns df0) (dtypes df0)"
    by (auto simp: drop_columns_def split: if_splits)
  show c2: "columns f2 = filter ?p (columns df0)"
    using f2 c1 by (auto simp: drop_regions_eq split: if_splits)
  have d2: "dtypes f2 = dtypes f1"
    using f2 by (auto simp: drop_regions_eq split: if_splits)
  show "dtype_of f2 c = dtype_of df0 c" if "c \<in> set (columns f2)"
  proof -
    from that c2 have c0: "c \<in> set (columns df0)" "?p c" by auto
    from wf have "distinct (columns df0)" "length (dtypes df0) = length (columns df0)"
      by (auto simp: wf_frame_def)
    from keep_cells_pos[OF this(1) c0(1), of ?p, OF c0(2) this(2)] show ?thesis
      by (simp add: dtype_of_def d2 d1 c2)
  qed
  show "rows f2 = map ?strip (kept_rows df0 rs)"
  proof (cases "rs = []")
    case True
    with f2 r1 show ?thesis by (simp add: kept_rows_def excluded_rows_def)
  next
    case False
    with f2 have rid: "''RegionID'' \<in> set (columns f1)"
      and rows2: "rows f2 = filter (\<lambda>r. fst r \<notin> set (map fst (excluded_rows f1 rs))) (rows f1)"
      by (auto simp: drop_regions_eq split: if_splits)
    from rid c1 have rid0: "''RegionID'' \<in> set (columns df0)" "?p ''RegionID''" by auto
    have cell: "snd (?strip r) ! pos ''RegionID'' (columns f1) = snd r ! pos ''RegionID'' (columns df0)"
      if "r \<in> set (rows df0)" for r
    proof -
      from wf that have "distinct (columns df0)" "length (snd r) = length (columns df0)"
        by (auto simp: wf_frame_def list_all_iff)
      from keep_cells_pos[OF this(1) rid0(1), of ?p, OF rid0(2) this(2)] show ?thesis
        by (simp add: c1)
    qed
    have ex: "excluded_rows f1 rs = map ?strip (excluded_rows df0 rs)"
      unfolding excluded_rows_def r1
      by (rule filter_map_swap) (simp add: cell[simplified])
    have lab: "set (map fst (excluded_rows f1 rs)) = set (map fst (excluded_rows df0 rs))"
      unfolding ex by (simp add: o_def)
    show ?thesis
      unfolding rows2 lab r1 kept_rows_def
      by (rule filter_map_swap) simp
  qed
qed

lemma remaining_cell:
  assumes wf: "wf_frame df0" and rem: "remaining df0 fs rs = Inr f2"
    and c: "c \<in> set (columns f2)" and i: "i < length (kept_rows df0 rs)"
  shows "snd (rows f2 ! i) ! pos c (columns f2) = snd (kept_rows df0 rs ! i) ! pos c (columns df0)"
proof -
  from c have c0: "c \<in> set (columns df0)" "c \<notin> set fs"
    unfolding remaining_wf(1)[OF wf rem] by auto
  have "kept_rows df0 rs ! i \<in> set (rows df0)"
    using nth_mem[OF i] by (auto simp: kept_rows_def)
  with wf have "distinct (columns df0)" "length (snd (kept_rows df0 rs ! i)) = length (columns df0)"
    by (auto simp: wf_frame_def list_all_iff)
  from keep_cells_pos[OF this(1) c0(1), of "\<lambda>c. c \<notin> set fs", OF c0(2) this(2)] i
  show ?thesis
    unfolding remaining_wf(1,2)[OF wf rem] by simp
qed

text \<open>With distinct index labels, the rows that line 16 leaves are the rows of the
  regions that are not excluded.\<close>

lemma kept_rows_distinct_index:
  assumes "distinct (index df)"
  shows "kept_rows df rs = retained_rows df rs"
  unfolding kept_rows_def retained_rows_def
proof (rule filter_cong[OF refl])
  fix r assume r: "r \<in> set (rows df)"
  from assms have inj: "inj_on fst (set (rows df))" by (simp add: distinct_map index_def)
  show "(fst r \<notin> set (map fst (excluded_rows df rs))) = (snd r ! pos ''RegionID'' (columns df) \<notin> set rs)"
  proof
    assume "fst r \<notin> set (map fst (excluded_rows df rs))"
    with r show "snd r ! pos ''RegionID'' (columns df) \<notin> set rs"
      by (auto simp: excluded_rows_def)
  next
    assume n: "snd r ! pos ''RegionID'' (columns df) \<notin> set rs"
    show "fst r \<notin> set (map fst (excluded_rows df rs))"
    proof
      assume "fst r \<in> set (map fst (excluded_rows df rs))"
      then obtain r' where r': "r' \<in> set (rows df)" "fst r' = fst r"
        "snd r' ! pos ''RegionID'' (columns df) \<in> set rs"
        by (auto simp: excluded_rows_def)
      from inj r r'(1,2) have "r' = r" by (auto dest: inj_onD)
      with r'(3) n show False by simp
    qed
  qed
qed

text \<open>The conversion of an integer to a float is exact below \<open>2 ^ 53\<close>, and no other
  conversion of \<open>melt\<close> changes a cell.\<close>

lemma bit_length_le: "bit_length n \<le> k \<longleftrightarrow> n < 2 ^ k"
proof (induction n arbitrary: k rule: bit_length.induct)
  case (1 n)
  show ?case
  proof (cases "n \<le> 0")
    case True
    have "(0::int) < 2 ^ k" by simp
    with True have "n < 2 ^ k" by linarith
    with True show ?thesis by (subst bit_length.simps) simp
  next
    case False
    show ?thesis
    proof (cases k)
      case 0
      with False show ?thesis by (subst bit_length.simps) simp
    next
      case (Suc k')
      have "bit_length n \<le> Suc k' \<longleftrightarrow> bit_length (n div 2) \<le> k'"
        using False by (subst bit_length.simps) simp
      also have "\<dots> \<longleftrightarrow> n div 2 < 2 ^ k'" by (rule "1.IH"[OF False])
      also have "\<dots> \<longleftrightarrow> n < 2 * 2 ^ k'" by linarith
      finally show ?thesis by (simp only: Suc power_Suc)
    qed
  qed
qed

lemma float64_of_int_exact: "\<bar>n\<bar> < 2 ^ 53 \<Longrightarrow> float64_of_int n = n"
proof -
  assume "\<bar>n\<bar> < 2 ^ 53"
  then have "bit_length \<bar>n\<bar> \<le> 53" by (simp only: bit_length_le)
  then show ?thesis by (simp add: float64_of_int_def Let_def)
qed

lemma astype_same:
  "target \<noteq> float64 \<or> source \<noteq> int64 \<or> c = Null \<or> (\<exists>n. c = Num (of_int n) \<and> \<bar>n\<bar> < 2 ^ 53)
   \<Longrightarrow> astype target source c = c"
  by (auto simp: astype_def float64_of_int_exact)

lemma parser_ok_example: "parser_ok example_parse"
  by (auto simp: parser_ok_def example_parse_def iso_date_def split: option.splits if_splits)

lemma first_label_rows:
  assumes "xs \<noteq> []" "g (xs ! 0) = Str l"
  shows "first_label (map g xs) = Some l"
  using assms by (cases xs) (simp_all add: first_label_def)

text \<open>
  Claim C1, as amended.  Let a well-formed wide table with distinct index labels have
  \<open>R\<close> rows whose region identifier is not excluded (\<open>retained_rows\<close>) and \<open>C\<close> value
  columns left after the dropped columns are removed (\<open>value_columns\<close>).  Without
  null-dropping, the frame that \<open>melt_zillow_dataset\<close> returns has exactly \<open>R * C\<close>
  rows.  There is one row for each such row \<open>i\<close> and each value column \<open>j\<close>: it holds the
  identifier cells of row \<open>i\<close>, the date that the parser reads from the label of column
  \<open>j\<close> in the format of the label of the first value column, which is a date of the
  calendar, and the cell of row \<open>i\<close> in column \<open>j\<close> of the original table converted
  to the common dtype of the value columns, in this order (when \<open>index_field\<close> is
  given, with that cell moved to the index, \<open>finish_row\<close>).  The conversion leaves
  every cell as it is, except an integer of an integer column that stands beside a float
  column: it becomes the nearest float, which differs from it only beyond \<open>2 ^ 53\<close>
  (lemma \<open>astype_same\<close>).
\<close>

theorem melt_rows_by_columns:
  assumes "df < length s" and wf: "wf_frame (s ! df)" and labels: "distinct (index (s ! df))"
    and ok: "parser_ok parse"
    and res: "result_frame (melt_zillow_dataset parse s df id_fields fields_to_drop regions_to_drop
           date_col value_col index_field False) = Inr out"
  shows "(let kept = retained_rows (s ! df) regions_to_drop;
              vcols = value_columns (s ! df) id_fields fields_to_drop;
              t = find_common_type (map (dtype_of (s ! df)) vcols)
          in length (rows out) = length kept * length vcols \<and>
             (\<forall>i < length kept. \<forall>j < length vcols. \<exists>d.
                parse (Some (vcols ! 0)) (vcols ! j) = Some d \<and> valid_timestamp d \<and>
                rows out ! (j * length kept + i) =
                  finish_row index_field (id_fields @ [date_col, value_col])
                    (Num (of_nat (j * length kept + i)),
                     map (\<lambda>c. snd (kept ! i) ! pos c (columns (s ! df))) id_fields
                       @ [Date d, astype t (dtype_of (s ! df) (vcols ! j))
                                    (snd (kept ! i) ! pos (vcols ! j) (columns (s ! df)))])))"
proof -
  define kept where "kept = retained_rows (s ! df) regions_to_drop"
  define vcols where "vcols = value_columns (s ! df) id_fields fields_to_drop"
  define t where "t = find_common_type (map (dtype_of (s ! df)) vcols)"
  have kept: "kept_rows (s ! df) regions_to_drop = kept"
    unfolding kept_def by (rule kept_rows_distinct_index[OF labels])
  from res have "reshaped parse (s ! df) id_fields fields_to_drop regions_to_drop date_col
      value_col index_field False = Inr out"
    by (simp add: melt_zillow_dataset_result[OF assms(1)])
  then obtain f2 f3 f4 f5 where st: "remaining (s ! df) fields_to_drop regions_to_drop = Inr f2"
    "melt id_fields date_col value_col f2 = Inr f3"
    "assign_to_datetime parse date_col f3 = Inr f4"
    "f5 = (if False then f4\<lparr>rows := filter (\<lambda>r. snd r ! Suc (length id_fields) \<noteq> Null) (rows f4)\<rparr> else f4)"
    "(if truthy index_field then set_index (the index_field) f5 else Inr f5) = Inr out"
    "melted id_fields date_col value_col f3" "melted id_fields date_col value_col f4"
    "melted id_fields date_col value_col f5"
    by (rule reshaped_Inr)
  have f5: "f5 = f4" using st(4) by simp
  let ?g = "\<lambda>v r. map (\<lambda>i. snd r ! pos i (columns f2)) id_fields
               @ [Str v, astype (value_dtype f2 id_fields) (dtype_of f2 v) (snd r ! pos v (columns f2))]"
  define p where "p = parse (first_label (map (\<lambda>r. snd r ! length id_fields) (rows f3)))"
  have len2: "length (rows f2) = length kept"
    unfolding remaining_wf(2)[OF wf st(1)] kept by simp
  have vc2: "filter (\<lambda>c. c \<notin> set id_fields) (columns f2) = vcols"
    unfolding remaining_wf(1)[OF wf st(1)] vcols_def value_columns_def by simp
  have mm: "map (dtype_of f2) vcols = map (dtype_of (s ! df)) vcols"
  proof (rule map_cong[OF refl])
    fix v assume "v \<in> set vcols"
    then have "v \<in> set (columns f2)" unfolding vc2[symmetric] by simp
    then show "dtype_of f2 v = dtype_of (s ! df) v" by (rule remaining_wf(3)[OF wf st(1)])
  qed
  have vt: "value_dtype f2 id_fields = t"
    unfolding value_dtype_def vc2 t_def mm by (rule refl)
  have rows3: "rows f3 = range_index (concat (map (\<lambda>v. map (?g v) (rows f2)) vcols))"
    using melt_Inr(4)[OF st(2)] by (simp only: vc2)
  have len3: "length (rows f3) = length kept * length vcols"
    unfolding rows3 by (simp add: length_range_index length_concat_rect len2)
  have rows4: "rows f4 = map (\<lambda>r. (fst r, (snd r)[length id_fields := the (datetime_of p (snd r ! length id_fields))])) (rows f3)"
    unfolding p_def by (rule assign_to_datetime_Inr(2)[OF st(6) st(3)])
  have len4: "length (rows f4) = length kept * length vcols"
    unfolding rows4 by (simp add: len3)
  have lenout: "length (rows out) = length kept * length vcols"
    unfolding finish_Inr(1)[OF st(5)] by (simp add: f5 len4)
  have row3: "rows f3 ! (j * length kept + i) = (Num (of_nat (j * length kept + i)), ?g (vcols ! j) (rows f2 ! i))"
      "j * length kept + i < length (rows f3)"
    if i: "i < length kept" and j: "j < length vcols" for i j
  proof -
    let ?k = "j * length kept + i"
    have "?k < length kept + j * length kept" using i by simp
    also have "\<dots> = Suc j * length kept" by simp
    also have "\<dots> \<le> length vcols * length kept" using j by (intro mult_le_mono1) simp
    finally have k: "?k < length kept * length vcols" by (simp add: mult.commute)
    have i2: "i < length (rows f2)" using i len2 by simp
    have k': "?k = j * length (rows f2) + i" by (simp add: len2)
    have kc: "?k < length (concat (map (\<lambda>v. map (?g v) (rows f2)) vcols))"
      using k by (simp add: length_concat_rect len2 mult.commute)
    have "concat (map (\<lambda>v. map (?g v) (rows f2)) vcols) ! ?k = ?g (vcols ! j) (rows f2 ! i)"
      using nth_concat_rect[OF i2 j, of ?g] by (simp only: k')
    with nth_range_index[OF kc]
    show "rows f3 ! ?k = (Num (of_nat ?k), ?g (vcols ! j) (rows f2 ! i))"
      unfolding rows3 by (simp only:)
    show "?k < length (rows f3)" using k len3 by simp
  qed
  have first: "p = parse (Some (vcols ! 0))" if i: "i < length kept" and j: "j < length vcols" for i j
  proof -
    have i0: "0 < length kept" by (rule le_less_trans[OF le0 i])
    have j0: "0 < length vcols" by (rule le_less_trans[OF le0 j])
    from row3[OF i0 j0] have r0: "rows f3 ! 0 = (Num 0, ?g (vcols ! 0) (rows f2 ! 0))"
      and ne: "rows f3 \<noteq> []" by auto
    have "snd (rows f3 ! 0) ! length id_fields = Str (vcols ! 0)"
      unfolding r0 by (simp add: nth_append)
    from first_label_rows[OF ne, of "\<lambda>r. snd r ! length id_fields", OF this]
    show ?thesis unfolding p_def by simp
  qed
  have content: "\<exists>d. parse (Some (vcols ! 0)) (vcols ! j) = Some d \<and> valid_timestamp d \<and>
                   j * length kept + i < length (rows f4) \<and>
                   rows f4 ! (j * length kept + i) =
                     (Num (of_nat (j * length kept + i)),
                      map (\<lambda>c. snd (kept ! i) ! pos c (columns (s ! df))) id_fields
                        @ [Date d, astype t (dtype_of (s ! df) (vcols ! j))
                                     (snd (kept ! i) ! pos (vcols ! j) (columns (s ! df)))])"
    if i: "i < length kept" and j: "j < length vcols" for i j
  proof -
    let ?k = "j * length kept + i"
    note r3 = row3(1)[OF i j] and k3 = row3(2)[OF i j]
    have vj: "vcols ! j \<in> set (columns f2)"
      using nth_mem[OF j] unfolding vc2[symmetric] by simp
    have ids: "set id_fields \<subseteq> set (columns f2)" by (rule melt_Inr(1)[OF st(2)])
    have cellv: "snd (rows f2 ! i) ! pos (vcols ! j) (columns f2)
        = snd (kept ! i) ! pos (vcols ! j) (columns (s ! df))"
      using remaining_cell[OF wf st(1) vj] i unfolding kept by simp
    have dtv: "dtype_of f2 (vcols ! j) = dtype_of (s ! df) (vcols ! j)"
      by (rule remaining_wf(3)[OF wf st(1) vj])
    have cellid: "map (\<lambda>c. snd (rows f2 ! i) ! pos c (columns f2)) id_fields
        = map (\<lambda>c. snd (kept ! i) ! pos c (columns (s ! df))) id_fields"
    proof (rule map_cong[OF refl])
      fix c assume "c \<in> set id_fields"
      with ids have "c \<in> set (columns f2)" by auto
      from remaining_cell[OF wf st(1) this] i
      show "snd (rows f2 ! i) ! pos c (columns f2) = snd (kept ! i) ! pos c (columns (s ! df))"
        unfolding kept by simp
    qed
    from k3 have "rows f3 ! ?k \<in> set (rows f3)" by (rule nth_mem)
    with assign_to_datetime_Inr(1)[OF st(6) st(3)]
    have "datetime_of p (snd (rows f3 ! ?k) ! length id_fields) \<noteq> None"
      by (simp add: list_all_iff p_def)
    then obtain d where "p (vcols ! j) = Some d"
      unfolding r3 by (auto simp: datetime_of_def nth_append)
    then have d: "parse (Some (vcols ! 0)) (vcols ! j) = Some d" and pd: "p (vcols ! j) = Some d"
      using first[OF i j] by simp_all
    from ok d have v: "valid_timestamp d" unfolding parser_ok_def by blast
    have "rows f4 ! ?k = (Num (of_nat ?k),
             (?g (vcols ! j) (rows f2 ! i))[length id_fields := the (datetime_of p (Str (vcols ! j)))])"
      unfolding rows4 using k3 by (simp add: r3 nth_append)
    also have "\<dots> = (Num (of_nat ?k),
             map (\<lambda>c. snd (rows f2 ! i) ! pos c (columns f2)) id_fields
               @ [Date d, astype (value_dtype f2 id_fields) (dtype_of f2 (vcols ! j))
                            (snd (rows f2 ! i) ! pos (vcols ! j) (columns f2))])"
      using pd by (simp add: datetime_of_def list_update_append)
    finally have "rows f4 ! ?k = (Num (of_nat ?k),
             map (\<lambda>c. snd (kept ! i) ! pos c (columns (s ! df))) id_fields
               @ [Date d, astype t (dtype_of (s ! df) (vcols ! j))
                            (snd (kept ! i) ! pos (vcols ! j) (columns (s ! df)))])"
      by (simp only: cellv cellid vt dtv)
    moreover have "?k < length (rows f4)" using k3 by (simp add: len4 len3)
    ultimately show ?thesis using d v by blast
  qed
  have c4: "columns f4 = id_fields @ [date_col, value_col]"
    using st(7) by (simp add: melted_def)
  have outk: "rows out ! k = finish_row index_field (id_fields @ [date_col, value_col]) (rows f4 ! k)"
    if "k < length (rows f4)" for k
    using that finish_Inr(1)[OF st(5)] by (simp add: f5 c4)
  have "\<exists>d. parse (Some (vcols ! 0)) (vcols ! j) = Some d \<and> valid_timestamp d \<and>
          rows out ! (j * length kept + i) =
            finish_row index_field (id_fields @ [date_col, value_col])
              (Num (of_nat (j * length kept + i)),
               map (\<lambda>c. snd (kept ! i) ! pos c (columns (s ! df))) id_fields
                 @ [Date d, astype t (dtype_of (s ! df) (vcols ! j))
                              (snd (kept ! i) ! pos (vcols ! j) (columns (s ! df)))])"
    if "i < length kept" "j < length vcols" for i j
  proof -
    from content[OF that] obtain d where d: "parse (Some (vcols ! 0)) (vcols ! j) = Some d"
      "valid_timestamp d"
      "j * length kept + i < length (rows f4)"
      "rows f4 ! (j * length kept + i) =
         (Num (of_nat (j * length kept + i)),
          map (\<lambda>c. snd (kept ! i) ! pos c (columns (s ! df))) id_fields
            @ [Date d, astype t (dtype_of (s ! df) (vcols ! j))
                         (snd (kept ! i) ! pos (vcols ! j) (columns (s ! df)))])"
      by blast
    from outk[OF d(3)] d(1,2,4) show ?thesis by (simp del: split_paired_Ex)
  qed
  with lenout show ?thesis
    unfolding Let_def kept_def[symmetric] vcols_def[symmetric] t_def[symmetric] by blast
qed

theorem melt_rows_by_columns_witness:
  "wf_frame wide_example \<and> distinct (index wide_example) \<and> parser_ok example_parse \<and>
   length (rows full_example) = 2 * 2 \<and>
   example_parse (Some ''2020-01-31'') ''2020-02-29'' = Some (2020, 2, 29, 0) \<and>
   valid_timestamp (2020, 2, 29, 0) \<and>
   rows full_example ! (1 * 2 + 0) = (Num 2, [Num 1, Str ''A'', Date (2020, 2, 29, 0), Num 0])"
proof -
  let ?K = "[(Num 1, [Num 1, Num 1, Str ''A'', Num 100, Num 0]),
            (Num 2, [Num 2, Num 2, Str ''B'', Num 200, Null])]"
  let ?V = "[''2020-01-31'', ''2020-02-29'']"
  have a: "(0::nat) < length [wide_example]" by simp
  have wf: "wf_frame ([wide_example] ! 0)" by code_simp
  have di: "distinct (index ([wide_example] ! 0))" by code_simp
  have res: "result_frame (melt_zillow_dataset example_parse [wide_example] 0
             [''RegionID'', ''RegionName''] [''SizeRank''] [US_COUNTRY_REGION_ID] ''Date'' ''Value''
             None False) = Inr full_example"
    by code_simp
  have k: "retained_rows ([wide_example] ! 0) [US_COUNTRY_REGION_ID] = ?K"
    by code_simp
  have v: "value_columns ([wide_example] ! 0) [''RegionID'', ''RegionName''] [''SizeRank''] = ?V"
    by code_simp
  have t: "find_common_type (map (dtype_of ([wide_example] ! 0)) ?V) = float64"
    by code_simp
  have p: "example_parse (Some ''2020-01-31'') ''2020-02-29'' = Some (2020, 2, 29, 0)" by code_simp
  have c: "columns ([wide_example] ! 0) = [''RegionID'', ''SizeRank'', ''RegionName'', ''2020-01-31'', ''2020-02-29'']"
    by (simp add: wide_example_def)
  have nt: "\<not> truthy None" by (simp add: truthy_def)
  have i0: "0 < length ?K" and j1: "1 < length ?V" by simp_all
  note th = melt_rows_by_columns[OF a wf di parser_ok_example res, unfolded Let_def k v t]
  from th have len: "length (rows full_example) = length ?K * length ?V" by (rule conjunct1)
  from th i0 j1 obtain d where d: "example_parse (Some (?V ! 0)) (?V ! 1) = Some d"
    "valid_timestamp d"
    "rows full_example ! (1 * length ?K + 0) =
       finish_row None ([''RegionID'', ''RegionName''] @ [''Date'', ''Value''])
         (Num (of_nat (1 * length ?K + 0)),
          map (\<lambda>c. snd (?K ! 0) ! pos c (columns ([wide_example] ! 0))) [''RegionID'', ''RegionName'']
            @ [Date d, astype float64 (dtype_of ([wide_example] ! 0) (?V ! 1))
                         (snd (?K ! 0) ! pos (?V ! 1) (columns ([wide_example] ! 0)))])"
    by blast
  from d(1) p have dd: "d = (2020, 2, 29, 0)" by simp
  have "astype float64 (dtype_of ([wide_example] ! 0) (?V ! 1)) (Num 0) = Num 0"
    by (rule astype_same) simp
  with d(3) nt dd have "rows full_example ! (1 * 2 + 0) = (Num 2, [Num 1, Str ''A'', Date (2020, 2, 29, 0), Num 0])"
    unfolding c by (simp add: numeral_2_eq_2 finish_row_def)
  with len p wf di d(2) dd parser_ok_example show ?thesis by simp
qed

text \<open>The claim as stated fails in two ways.  On a table with a repeated index label,
  line 16 drops by label: of the two rows whose region is not excluded only one is left,
  and the two value columns give two rows, not four.  And on a table with an integer
  value column beside a float value column, the integer 9007199254740993 is not
  carried over as it is: the value column is a float column and holds
  9007199254740992.\<close>

theorem melt_rows_by_columns_counterexample:
  "wf_frame repeated_labels_example \<and>
   length (retained_rows repeated_labels_example [US_COUNTRY_REGION_ID]) = 2 \<and>
   length (value_columns repeated_labels_example [''RegionID'', ''RegionName''] [''SizeRank'']) = 2 \<and>
   result_frame (melt_zillow_dataset example_parse [repeated_labels_example] 0
      [''RegionID'', ''RegionName''] [''SizeRank''] [US_COUNTRY_REGION_ID] ''Date'' ''Value'' None False)
     = Inr \<lparr>columns = [''RegionID'', ''RegionName'', ''Date'', ''Value''],
            dtypes = [int64, object, datetime64, float64],
            rows = [(Num 0, [Num 2, Str ''B'', Date (2020, 1, 31, 0), Num 200]),
                    (Num 1, [Num 2, Str ''B'', Date (2020, 2, 29, 0), Null])]\<rparr> \<and>
   wf_frame mixed_example \<and> distinct (index mixed_example) \<and>
   retained_rows mixed_example [US_COUNTRY_REGION_ID]
     = [(Num 0, [Num 1, Str ''A'', Num 9007199254740993, Num (1 / 2)])] \<and>
   result_frame (melt_zillow_dataset example_parse [mixed_example] 0
      [''RegionID'', ''RegionName''] [] [US_COUNTRY_REGION_ID] ''Date'' ''Value'' None False)
     = Inr \<lparr>columns = [''RegionID'', ''RegionName'', ''Date'', ''Value''],
            dtypes = [int64, object, datetime64, float64],
            rows = [(Num 0, [Num 1, Str ''A'', Date (2020, 1, 31, 0), Num 9007199254740992]),
                    (Num 1, [Num 1, Str ''A'', Date (2020, 2, 29, 0), Num (1 / 2)])]\<rparr>"
  by code_simp

section \<open>The ranking function: the returned frame\<close>

lemma result_value: "result_frame (then_do (s, r) k) = bind_sum r (\<lambda>x. result_frame (k x s))"
  by (cases r) (simp_all add: result_frame_def then_do_def bind_sum_def)

lemma result_new_frame_last: "result_frame (new_frame r s) = r"
  by (cases r) (simp_all add: result_frame_def new_frame_def)

lemma top_regions_result:
  "df < length s \<Longrightarrow>
   result_frame (top_regions qs s df top_n region_id_col region_name_col mom_change_col)
   = ranked qs (s ! df) top_n region_id_col region_name_col mom_change_col"
  unfolding top_regions_def ranked_def
  by (simp add: result_new_frame result_new_frame_last nth_append2 nth_append cong: bind_sum_cong)

lemma get_top_regions_result:
  "df < length s \<Longrightarrow>
   result_frame (get_top_regions_by_mom_change qs s df months top_n date_col region_id_col
      region_name_col mom_change_col)
   = bind_sum (window (s ! df) date_col months) (\<lambda>w.
       ranked qs w top_n region_id_col region_name_col mom_change_col)"
  unfolding get_top_regions_by_mom_change_def window_def
  by (simp add: result_value result_new_frame top_regions_result bind_sum_assoc nth_append
        cong: bind_sum_cong)

section \<open>The trailing window\<close>

lemma maximum_Max: "maximum ds = (if ds = [] then None else Some (Max (set ds)))"
proof (induction ds)
  case Nil
  then show ?case by simp
next
  case (Cons d ds)
  then show ?case by (cases "ds = []") (simp_all add: max_def)
qed

lemma add_months_components:
  "month_index (add_months t n) = month_index t + n"
  "1 \<le> month_of (add_months t n)" "month_of (add_months t n) \<le> 12"
  "day_of (add_months t n) = min (day_of t) (days_in_month (year_of (add_months t n)) (month_of (add_months t n)))"
  "time_of (add_months t n) = time_of t"
  by (cases t; simp add: add_months_def Let_def month_index_def year_of_def month_of_def day_of_def time_of_def; presburger?)+

lemma add_months_le:
  assumes "1 \<le> month_of t" "month_of t \<le> 12" "0 \<le> n"
  shows "add_months t (- n) \<le> t"
proof -
  obtain y m d ns where t: "t = (y, m, d, ns)" by (cases t) auto
  define k where "k = y * 12 + (m - 1) + - n"
  from assms t have m: "1 \<le> m" "m \<le> 12" by (simp_all add: month_of_def)
  have k1: "k div 12 \<le> y" using m assms(3) unfolding k_def by linarith
  have k2: "k div 12 = y \<Longrightarrow> k mod 12 + 1 \<le> m" using m assms(3) unfolding k_def by presburger
  have "(k div 12, k mod 12 + 1, min d (days_in_month (k div 12) (k mod 12 + 1)), ns) \<le> (y, m, d, ns)"
    using k1 k2 by auto
  then show ?thesis by (simp add: t add_months_def Let_def k_def)
qed

lemma window_Inr:
  assumes "window f dc months = Inr w"
  obtains ds start where "getitem f dc = Inr ds" "list_all is_date_or_null ds"
    "last_n_months (maximum (the_dates ds)) months = Inr start"
    "w = f\<lparr>rows := filter (\<lambda>r. ge (snd r ! pos dc (columns f)) start) (rows f)\<rparr>"
proof -
  from assms obtain cur start where a: "current_date f dc = Inr cur"
    "last_n_months cur months = Inr start" "df_last_n_months f dc start = Inr w"
    unfolding window_def bind_sum_eq_Inr by blast
  from a(1) obtain ds where ds: "getitem f dc = Inr ds" "list_all is_date_or_null ds"
    "cur = maximum (the_dates ds)"
    by (auto simp: current_date_def split: sum.splits if_splits)
  from ds(1) have dseq: "ds = map (\<lambda>r. snd r ! pos dc (columns f)) (rows f)"
    by (auto simp: getitem_def split: if_splits)
  have "w = select (ge_mask ds start) f"
    using a(3) ds(1) by (simp add: df_last_n_months_def)
  also have "\<dots> = f\<lparr>rows := filter (\<lambda>r. ge (snd r ! pos dc (columns f)) start) (rows f)\<rparr>"
    unfolding select_def ge_mask_def dseq
    using filter_mask[of "\<lambda>r. ge (snd r ! pos dc (columns f)) start" "rows f"]
    by (simp add: o_def)
  finally show thesis using ds(1,2) a(2) ds(3) that by blast
qed

lemma last_n_months_Some:
  assumes "last_n_months (Some e) months = Inr start"
  shows "start = Some (add_months e (- months))"
  using assms by (auto simp: last_n_months_def Let_def split: if_splits)

text \<open>
  Claim C2.  For a table with at least one date, a call of
  \<open>get_top_regions_by_mom_change\<close> that returns has ranked exactly the rows of the
  trailing window: the end \<open>e\<close> of the window is the maximum date present in the table
  (not the current date); its start \<open>st\<close> is \<open>e\<close> moved back by \<open>months\<close> calendar
  months (the month index goes back by exactly \<open>months\<close>, the day of the month is kept,
  or is the last day of the target month when that month is shorter, and the time of day
  is kept: no 30-day periods); the window holds exactly the rows whose date is on or
  after \<open>st\<close>, in their order; and the result is the ranking (lines 61 to 64) of the
  window.  There is no upper bound: for \<open>months \<ge> 0\<close> the rows dated \<open>e\<close> are in
  the window.
\<close>

theorem window_is_trailing:
  assumes "df < length s"
    and "result_frame (get_top_regions_by_mom_change qs s df months top_n date_col region_id_col
           region_name_col mom_change_col) = Inr out"
    and "getitem (s ! df) date_col = Inr ds" and "the_dates ds \<noteq> []"
  shows "\<exists>e st w.
           e = Max (set (the_dates ds)) \<and>
           month_index st = month_index e - months \<and>
           1 \<le> month_of st \<and> month_of st \<le> 12 \<and>
           day_of st = min (day_of e) (days_in_month (year_of st) (month_of st)) \<and>
           time_of st = time_of e \<and>
           columns w = columns (s ! df) \<and>
           rows w = filter (\<lambda>r. \<exists>d. snd r ! pos date_col (columns (s ! df)) = Date d \<and> st \<le> d)
                      (rows (s ! df)) \<and>
           ranked qs w top_n region_id_col region_name_col mom_change_col = Inr out \<and>
           (0 \<le> months \<and> valid_timestamp e \<longrightarrow>
              (\<forall>r \<in> set (rows (s ! df)).
                 snd r ! pos date_col (columns (s ! df)) = Date e \<longrightarrow> r \<in> set (rows w)))"
proof -
  from assms(2) obtain w where w: "window (s ! df) date_col months = Inr w"
    "ranked qs w top_n region_id_col region_name_col mom_change_col = Inr out"
    unfolding get_top_regions_result[OF assms(1)] bind_sum_eq_Inr by blast
  from w(1) obtain ds' start where st: "getitem (s ! df) date_col = Inr ds'"
    "last_n_months (maximum (the_dates ds')) months = Inr start"
    "w = (s ! df)\<lparr>rows := filter (\<lambda>r. ge (snd r ! pos date_col (columns (s ! df))) start) (rows (s ! df))\<rparr>"
    by (rule window_Inr)
  from st(1) assms(3) have "ds' = ds" by simp
  define e where "e = Max (set (the_dates ds))"
  define st' where "st' = add_months e (- months)"
  have "maximum (the_dates ds) = Some e"
    using assms(4) by (simp add: maximum_Max e_def)
  with st(2) \<open>ds' = ds\<close> have start: "start = Some st'"
    by (simp add: last_n_months_Some st'_def)
  have ge: "ge c start = (\<exists>d. c = Date d \<and> st' \<le> d)" for c
    by (cases c) (simp_all add: ge_def start)
  have rows: "rows w = filter (\<lambda>r. \<exists>d. snd r ! pos date_col (columns (s ! df)) = Date d \<and> st' \<le> d)
                      (rows (s ! df))"
    unfolding st(3) by (simp add: ge)
  have incl: "r \<in> set (rows w)" if "0 \<le> months" "valid_timestamp e" "r \<in> set (rows (s ! df))"
    "snd r ! pos date_col (columns (s ! df)) = Date e" for r
  proof -
    from that(1,2) have "st' \<le> e"
      unfolding st'_def by (intro add_months_le) (simp_all add: valid_timestamp_def)
    with that(3,4) show ?thesis unfolding rows by (simp del: split_paired_Ex)
  qed
  have comp: "month_index st' = month_index e - months" "1 \<le> month_of st'" "month_of st' \<le> 12"
    "day_of st' = min (day_of e) (days_in_month (year_of st') (month_of st'))" "time_of st' = time_of e"
    unfolding st'_def by (simp_all add: add_months_components)
  have cols: "columns w = columns (s ! df)" unfolding st(3) by simp
  from comp cols rows w(2) incl show ?thesis
    unfolding e_def[symmetric] by blast
qed

lemma ge_Some: "ge c (Some st) = (\<exists>d. c = Date d \<and> st \<le> d)"
  by (cases c) (simp_all add: ge_def)

lemma example_window: "window long_example ''EestimationDate'' 1 = Inr window_example"
  by code_simp

lemma example_avg:
  "groupby_mean ''RegionID'' ''RegionName'' ''MoM_Change'' window_example = Inr avg_example"
  by code_simp

lemma example_sorted: "sort_values argsort_stable ''MoM_Change'' avg_example = Inr sorted_example"
  by code_simp

lemma example_head: "head 1 sorted_example = top_example"
  by code_simp

lemma example_ranked:
  "ranked argsort_stable window_example 1 ''RegionID'' ''RegionName'' ''MoM_Change'' = Inr top_example"
  by (simp add: ranked_def example_avg example_sorted example_head bind_sum_Inr)

lemma example_top:
  "result_frame (get_top_regions_by_mom_change argsort_stable [long_example] 0 1 1
      ''EestimationDate'' ''RegionID'' ''RegionName'' ''MoM_Change'') = Inr top_example"
  by (simp add: get_top_regions_result example_window example_ranked bind_sum_Inr)

text \<open>One calendar month before 31 March 2020 is 29 February 2020 (thirty days before
  is 1 March).\<close>

lemma example_start: "last_n_months (Some (2020, 3, 31, 0)) 1 = Inr (Some (2020, 2, 29, 0))"
  by code_simp

theorem window_is_trailing_witness:
  "Max (set (the_dates [Date (2020, 1, 31, 0), Date (2020, 1, 31, 0), Date (2020, 3, 31, 0),
           Date (2020, 3, 31, 0)])) = (2020, 3, 31, 0) \<and>
   (\<exists>st w. month_index st = month_index (2020, 3, 31, 0) - 1 \<and>
      day_of st = min 31 (days_in_month (year_of st) (month_of st)) \<and>
      rows w = filter (\<lambda>r. ge (snd r ! pos ''EestimationDate'' (columns long_example)) (Some st))
                 (rows long_example) \<and>
      ranked argsort_stable w 1 ''RegionID'' ''RegionName'' ''MoM_Change'' = Inr top_example \<and>
      (Num 3, [Num 2, Str ''B'', Date (2020, 3, 31, 0), Num 3]) \<in> set (rows w))"
proof -
  let ?ds = "[Date (2020, 1, 31, 0), Date (2020, 1, 31, 0), Date (2020, 3, 31, 0), Date (2020, 3, 31, 0)]"
  have a: "(0::nat) < length [long_example]" by simp
  have g: "getitem ([long_example] ! 0) ''EestimationDate'' = Inr ?ds" by code_simp
  have nd: "the_dates ?ds \<noteq> []" by code_simp
  have m: "Max (set (the_dates ?ds)) = (2020, 3, 31, 0)" by code_simp
  have v: "valid_timestamp (2020, 3, 31, 0)" by code_simp
  have r: "(Num 3, [Num 2, Str ''B'', Date (2020, 3, 31, 0), Num 3]) \<in> set (rows ([long_example] ! 0))"
    by (simp add: long_example_def)
  have c: "snd (Num 3, [Num 2, Str ''B'', Date (2020, 3, 31, 0), Num 3]) !
      pos ''EestimationDate'' (columns ([long_example] ! 0)) = Date (2020, 3, 31, 0)"
    by code_simp
  from window_is_trailing[OF a example_top g nd, unfolded m] v r c
  obtain st w where f: "month_index st = month_index (2020, 3, 31, 0) - 1"
      "day_of st = min (day_of (2020, 3, 31, 0)) (days_in_month (year_of st) (month_of st))"
      "rows w = filter (\<lambda>r. \<exists>d. snd r ! pos ''EestimationDate'' (columns ([long_example] ! 0)) = Date d \<and> st \<le> d)
                      (rows ([long_example] ! 0))"
      "ranked argsort_stable w 1 ''RegionID'' ''RegionName'' ''MoM_Change'' = Inr top_example"
      "(Num 3, [Num 2, Str ''B'', Date (2020, 3, 31, 0), Num 3]) \<in> set (rows w)"
    by force
  have f2: "day_of st = min 31 (days_in_month (year_of st) (month_of st))"
    using f(2) by (simp add: day_of_def)
  have f3: "rows w = filter (\<lambda>r. ge (snd r ! pos ''EestimationDate'' (columns long_example)) (Some st))
                 (rows long_example)"
    using f(3) by (simp add: ge_Some del: split_paired_Ex)
  from m f(1) f2 f3 f(4,5) show ?thesis by blast
qed

section \<open>A window that covers the whole table\<close>

text \<open>
  Claim C9, as amended.  For every table in which every row has a date: when the start
  of the window (the maximum date that line 52 finds, moved back by \<open>months\<close> calendar
  months by line 55) is on or before every date of the table, \<open>get_top_regions_by_mom_change\<close> returns exactly
  what grouping, averaging, sorting and truncating the whole table returns (lines 61 to
  64 applied to the table itself), failures included.
\<close>

theorem full_window_is_no_window:
  assumes "df < length s"
    and "getitem (s ! df) date_col = Inr ds"
    and "current_date (s ! df) date_col = Inr current"
    and "last_n_months current months = Inr start"
    and "\<forall>c \<in> set ds. \<exists>d st. c = Date d \<and> start = Some st \<and> st \<le> d"
  shows "result_frame (get_top_regions_by_mom_change qs s df months top_n date_col region_id_col
           region_name_col mom_change_col)
         = result_frame (top_regions qs s df top_n region_id_col region_name_col mom_change_col)"
proof -
  from assms(2) have dseq: "ds = map (\<lambda>r. snd r ! pos date_col (columns (s ! df))) (rows (s ! df))"
    by (auto simp: getitem_def split: if_splits)
  have all: "ge (snd r ! pos date_col (columns (s ! df))) start" if "r \<in> set (rows (s ! df))" for r
  proof -
    from that have "snd r ! pos date_col (columns (s ! df)) \<in> set ds" unfolding dseq by simp
    with assms(5) show ?thesis by (auto simp: ge_def)
  qed
  have "select (ge_mask ds start) (s ! df)
      = (s ! df)\<lparr>rows := filter (\<lambda>r. ge (snd r ! pos date_col (columns (s ! df))) start) (rows (s ! df))\<rparr>"
    unfolding select_def ge_mask_def dseq
    using filter_mask[of "\<lambda>r. ge (snd r ! pos date_col (columns (s ! df))) start" "rows (s ! df)"]
    by (simp add: o_def)
  also have "filter (\<lambda>r. ge (snd r ! pos date_col (columns (s ! df))) start) (rows (s ! df)) = rows (s ! df)"
    using all by (simp add: filter_id_conv)
  finally have sel: "select (ge_mask ds start) (s ! df) = s ! df" by simp
  have "window (s ! df) date_col months = Inr (s ! df)"
    unfolding window_def df_last_n_months_def
    using assms(2,3,4) sel by (simp add: bind_sum_Inr)
  then show ?thesis
    by (simp add: get_top_regions_result[OF assms(1)] top_regions_result[OF assms(1)] bind_sum_Inr)
qed

theorem full_window_is_no_window_witness:
  "result_frame (top_regions argsort_stable [window_example] 0 1 ''RegionID'' ''RegionName''
      ''MoM_Change'') = Inr top_example"
proof -
  let ?ds = "[Date (2020, 3, 31, 0), Date (2020, 3, 31, 0)]"
  have a: "(0::nat) < length [window_example]" by simp
  have g: "getitem ([window_example] ! 0) ''EestimationDate'' = Inr ?ds" by code_simp
  have m: "current_date ([window_example] ! 0) ''EestimationDate'' = Inr (Some (2020, 3, 31, 0))"
    by code_simp
  have l: "last_n_months (Some (2020, 3, 31, 0)) 1 = Inr (Some (2020, 2, 29, 0))" by code_simp
  have le: "(2020, 2, 29, 0) \<le> ((2020, 3, 31, 0) :: timestamp)" by simp
  have c: "\<forall>c \<in> set ?ds. \<exists>d st. c = Date d \<and> Some (2020, 2, 29, 0) = Some st \<and> st \<le> d"
    using le by (simp del: split_paired_Ex)
  have w: "window window_example ''EestimationDate'' 1 = Inr window_example" by code_simp
  have "result_frame (get_top_regions_by_mom_change argsort_stable [window_example] 0 1 1
      ''EestimationDate'' ''RegionID'' ''RegionName'' ''MoM_Change'') = Inr top_example"
    by (simp add: get_top_regions_result w example_ranked bind_sum_Inr)
  with full_window_is_no_window[OF a g m l c, of argsort_stable 1 "''RegionID''" "''RegionName''" "''MoM_Change''"]
  show ?thesis by simp
qed

text \<open>The claim as stated fails on a table with a missing date: the comparison of line
  58 is false for a missing date, so the window never holds such a row, however long it
  is, while the ranking of the whole table counts the row.  Here the window starts a
  year before the only date of the table.\<close>

lemma undated_window:
  "window undated_example ''EestimationDate'' 12
   = Inr (undated_example\<lparr>rows := [(Num 0, [Num 1, Str ''A'', Date (2020, 1, 31, 0), Num 1])]\<rparr>)"
  by code_simp

lemma undated_window_ranked:
  "ranked argsort_stable (undated_example\<lparr>rows := [(Num 0, [Num 1, Str ''A'', Date (2020, 1, 31, 0), Num 1])]\<rparr>)
     25 ''RegionID'' ''RegionName'' ''MoM_Change''
   = Inr \<lparr>columns = [''RegionID'', ''RegionName'', ''MoM_Change''],
          dtypes = [int64, object, float64],
          rows = [(Num 0, [Num 1, Str ''A'', Num 1])]\<rparr>"
proof -
  have "groupby_mean ''RegionID'' ''RegionName'' ''MoM_Change''
          (undated_example\<lparr>rows := [(Num 0, [Num 1, Str ''A'', Date (2020, 1, 31, 0), Num 1])]\<rparr>)
        = Inr \<lparr>columns = [''RegionID'', ''RegionName'', ''MoM_Change''],
               dtypes = [int64, object, float64],
               rows = [(Num 0, [Num 1, Str ''A'', Num 1])]\<rparr>"
    by code_simp
  moreover have "sort_values argsort_stable ''MoM_Change''
          \<lparr>columns = [''RegionID'', ''RegionName'', ''MoM_Change''],
               dtypes = [int64, object, float64],
               rows = [(Num 0, [Num 1, Str ''A'', Num 1])]\<rparr>
        = Inr \<lparr>columns = [''RegionID'', ''RegionName'', ''MoM_Change''],
               dtypes = [int64, object, float64],
               rows = [(Num 0, [Num 1, Str ''A'', Num 1])]\<rparr>"
    by code_simp
  moreover have "head 25 \<lparr>columns = [''RegionID'', ''RegionName'', ''MoM_Change''],
               dtypes = [int64, object, float64],
               rows = [(Num 0, [Num 1, Str ''A'', Num 1])]\<rparr>
        = \<lparr>columns = [''RegionID'', ''RegionName'', ''MoM_Change''],
               dtypes = [int64, object, float64],
               rows = [(Num 0, [Num 1, Str ''A'', Num 1])]\<rparr>"
    by code_simp
  ultimately show ?thesis by (simp add: ranked_def bind_sum_Inr)
qed

lemma undated_ranked:
  "ranked argsort_stable undated_example 25 ''RegionID'' ''RegionName'' ''MoM_Change''
   = Inr \<lparr>columns = [''RegionID'', ''RegionName'', ''MoM_Change''],
          dtypes = [int64, object, float64],
          rows = [(Num 1, [Num 2, Str ''B'', Num 5]), (Num 0, [Num 1, Str ''A'', Num 1])]\<rparr>"
proof -
  have "groupby_mean ''RegionID'' ''RegionName'' ''MoM_Change'' undated_example
        = Inr \<lparr>columns = [''RegionID'', ''RegionName'', ''MoM_Change''],
               dtypes = [int64, object, float64],
               rows = [(Num 0, [Num 1, Str ''A'', Num 1]), (Num 1, [Num 2, Str ''B'', Num 5])]\<rparr>"
    by code_simp
  moreover have "sort_values argsort_stable ''MoM_Change''
          \<lparr>columns = [''RegionID'', ''RegionName'', ''MoM_Change''],
               dtypes = [int64, object, float64],
               rows = [(Num 0, [Num 1, Str ''A'', Num 1]), (Num 1, [Num 2, Str ''B'', Num 5])]\<rparr>
        = Inr \<lparr>columns = [''RegionID'', ''RegionName'', ''MoM_Change''],
               dtypes = [int64, object, float64],
               rows = [(Num 1, [Num 2, Str ''B'', Num 5]), (Num 0, [Num 1, Str ''A'', Num 1])]\<rparr>"
    by code_simp
  moreover have "head 25 \<lparr>columns = [''RegionID'', ''RegionName'', ''MoM_Change''],
               dtypes = [int64, object, float64],
               rows = [(Num 1, [Num 2, Str ''B'', Num 5]), (Num 0, [Num 1, Str ''A'', Num 1])]\<rparr>
        = \<lparr>columns = [''RegionID'', ''RegionName'', ''MoM_Change''],
               dtypes = [int64, object, float64],
               rows = [(Num 1, [Num 2, Str ''B'', Num 5]), (Num 0, [Num 1, Str ''A'', Num 1])]\<rparr>"
    by code_simp
  ultimately show ?thesis by (simp add: ranked_def bind_sum_Inr)
qed

theorem full_window_counterexample:
  "last_n_months (maximum (the_dates [Date (2020, 1, 31, 0), Null])) 12 = Inr (Some (2019, 1, 31, 0)) \<and>
   (2019, 1, 31, 0) \<le> ((2020, 1, 31, 0) :: timestamp) \<and>
   result_frame (get_top_regions_by_mom_change argsort_stable [undated_example] 0 12 25
      ''EestimationDate'' ''RegionID'' ''RegionName'' ''MoM_Change'')
     = Inr \<lparr>columns = [''RegionID'', ''RegionName'', ''MoM_Change''],
            dtypes = [int64, object, float64],
            rows = [(Num 0, [Num 1, Str ''A'', Num 1])]\<rparr> \<and>
   result_frame (top_regions argsort_stable [undated_example] 0 25 ''RegionID'' ''RegionName''
      ''MoM_Change'')
     = Inr \<lparr>columns = [''RegionID'', ''RegionName'', ''MoM_Change''],
            dtypes = [int64, object, float64],
            rows = [(Num 1, [Num 2, Str ''B'', Num 5]), (Num 0, [Num 1, Str ''A'', Num 1])]\<rparr>"
proof -
  have "last_n_months (maximum (the_dates [Date (2020, 1, 31, 0), Null])) 12 = Inr (Some (2019, 1, 31, 0))"
    by code_simp
  moreover have "(2019, 1, 31, 0) \<le> ((2020, 1, 31, 0) :: timestamp)" by simp
  ultimately show ?thesis
    by (simp add: get_top_regions_result top_regions_result undated_window undated_window_ranked
         undated_ranked bind_sum_Inr)
qed

section \<open>Sorting, grouping and truncating\<close>


lemma argsort_ok_stable: "argsort_ok argsort_stable"
  by (auto simp: argsort_ok_def argsort_stable_def)


lemma set_nargsort:
  assumes "argsort_ok qs"
  shows "set (nargsort qs items) \<subseteq> {..<length items}"
proof -
  let ?R = "rev (filter (\<lambda>i. items ! i \<noteq> Null) [0..<length items])"
  let ?vals = "map (\<lambda>i. num_of (items ! i)) ?R"
  from assms have s: "set (qs ?vals) = {..<length ?vals}" by (simp add: argsort_ok_def)
  have "?R ! j \<in> set ?R" if "j \<in> set (qs ?vals)" for j
    using that s by (intro nth_mem) simp
  then have "?R ! j < length items" if "j \<in> set (qs ?vals)" for j
    using that by fastforce
  then show ?thesis
    by (auto simp: nargsort_def Let_def)
qed

lemma sorted_nargsort:
  assumes "argsort_ok qs"
  shows "sorted_wrt precedes (map (\<lambda>i. items ! i) (nargsort qs items))"
proof -
  let ?R = "rev (filter (\<lambda>i. items ! i \<noteq> Null) [0..<length items])"
  let ?vals = "map (\<lambda>i. num_of (items ! i)) ?R"
  let ?na = "filter (\<lambda>i. items ! i = Null) [0..<length items]"
  let ?P = "map (\<lambda>j. ?R ! j) (qs ?vals)"
  from assms have s: "set (qs ?vals) = {..<length ?vals}"
    and srt: "sorted (map (\<lambda>j. ?vals ! j) (qs ?vals))"
    by (simp_all add: argsort_ok_def)
  have inR: "?R ! j \<in> set ?R" if "j \<in> set (qs ?vals)" for j
    using that s by (intro nth_mem) simp
  have nn: "items ! (?R ! j) \<noteq> Null" if "j \<in> set (qs ?vals)" for j
    using inR[OF that] by simp
  have val: "?vals ! j = num_of (items ! (?R ! j))" if "j \<in> set (qs ?vals)" for j
    using that s by (simp)
  have "map (\<lambda>j. ?vals ! j) (qs ?vals) = map (\<lambda>j. num_of (items ! (?R ! j))) (qs ?vals)"
    by (rule map_cong[OF refl]) (rule val)
  with srt have "sorted_wrt (\<lambda>x y. num_of (items ! (?R ! x)) \<le> num_of (items ! (?R ! y))) (qs ?vals)"
    by (simp add: sorted_wrt_map)
  then have "sorted_wrt (\<lambda>x y. precedes (items ! (?R ! y)) (items ! (?R ! x))) (qs ?vals)"
    by (rule sorted_wrt_mono_rel[rotated]) (simp add: precedes_def nn)
  then have a: "sorted_wrt precedes (map (\<lambda>i. items ! i) (rev ?P))"
    by (simp add: sorted_wrt_map sorted_wrt_rev rev_map[symmetric])
  have b: "sorted_wrt precedes (map (\<lambda>i. items ! i) ?na)"
    unfolding sorted_wrt_map
    by (rule sorted_wrt_mono_rel[OF _ sorted_wrt_true]) (simp add: precedes_def)
  have c: "\<forall>x \<in> set (map (\<lambda>i. items ! i) (rev ?P)). \<forall>y \<in> set (map (\<lambda>i. items ! i) ?na). precedes x y"
    by (auto simp: precedes_def)
  show ?thesis
    unfolding nargsort_def Let_def map_append sorted_wrt_append
    using a b c by blast
qed



lemma ranked_Inr:
  assumes "ranked qs w n a b c = Inr out"
  obtains avg items where "groupby_mean a b c w = Inr avg" "getitem avg c = Inr items"
    "out = head n (avg\<lparr>rows := map (\<lambda>i. rows avg ! i) (nargsort qs items)\<rparr>)"
proof -
  from assms obtain avg sorted where a: "groupby_mean a b c w = Inr avg"
    "sort_values qs c avg = Inr sorted" "out = head n sorted"
    unfolding ranked_def bind_sum_eq_Inr by auto
  from a(2) obtain items where "getitem avg c = Inr items"
    "sorted = avg\<lparr>rows := map (\<lambda>i. rows avg ! i) (nargsort qs items)\<rparr>"
    by (auto simp: sort_values_def split: sum.splits)
  with a(1,3) show thesis by (auto intro: that)
qed

lemma rows_head:
  "rows (head n f) = (if 0 \<le> n then take (nat n) (rows f) else take (length (rows f) - nat (- n)) (rows f))"
  "columns (head n f) = columns f"
  by (simp_all add: head_def)

section \<open>The ranked table\<close>

text \<open>
  Claim C4, as amended.  For every table, and for every sorting procedure that meets the
  contract of the default algorithm, the rows that \<open>get_top_regions_by_mom_change\<close>
  returns are in non-increasing order of the averaged metric, the regions without an
  average (no value in the window) last.  The order among regions with equal averages
  is the one the sorting procedure gives them: the code does not ask for a stable sort.
\<close>

theorem top_regions_sorted:
  assumes "df < length s" and "argsort_ok qs"
    and "result_frame (get_top_regions_by_mom_change qs s df months top_n date_col region_id_col
           region_name_col mom_change_col) = Inr out"
  shows "sorted_wrt precedes (map (\<lambda>r. snd r ! pos mom_change_col (columns out)) (rows out))"
proof -
  from assms(3) obtain w where w: "window (s ! df) date_col months = Inr w"
    "ranked qs w top_n region_id_col region_name_col mom_change_col = Inr out"
    unfolding get_top_regions_result[OF assms(1)] bind_sum_eq_Inr by blast
  from w(2) obtain avg items where r: "groupby_mean region_id_col region_name_col mom_change_col w = Inr avg"
    "getitem avg mom_change_col = Inr items"
    "out = head top_n (avg\<lparr>rows := map (\<lambda>i. rows avg ! i) (nargsort qs items)\<rparr>)"
    by (rule ranked_Inr)
  let ?m = "\<lambda>r. snd r ! pos mom_change_col (columns avg)"
  from r(2) have items: "items = map ?m (rows avg)"
    by (auto simp: getitem_def split: if_splits)
  have "map ?m (map (\<lambda>i. rows avg ! i) (nargsort qs items))
      = map (\<lambda>i. ?m (rows avg ! i)) (nargsort qs items)"
    by (simp add: o_def)
  also have "\<dots> = map (\<lambda>i. items ! i) (nargsort qs items)"
  proof (rule map_cong[OF refl])
    fix i assume "i \<in> set (nargsort qs items)"
    with set_nargsort[OF assms(2), of items] have "i < length (rows avg)" by (auto simp: items)
    then show "snd (rows avg ! i) ! pos mom_change_col (columns avg) = items ! i"
      by (simp add: items)
  qed
  finally have eq: "map ?m (map (\<lambda>i. rows avg ! i) (nargsort qs items))
      = map (\<lambda>i. items ! i) (nargsort qs items)" .
  have "sorted_wrt precedes (map ?m (map (\<lambda>i. rows avg ! i) (nargsort qs items)))"
    unfolding eq by (rule sorted_nargsort[OF assms(2)])
  then have "sorted_wrt precedes (take k (map ?m (map (\<lambda>i. rows avg ! i) (nargsort qs items))))" for k
    by (rule sorted_wrt_take)
  then show ?thesis
    unfolding r(3) by (simp add: rows_head take_map)
qed




lemma example_head_all: "head 25 sorted_example = sorted_example"
  by code_simp


theorem top_regions_sorted_witness:
  "argsort_ok argsort_stable \<and> sorted_wrt precedes [Num 3, Num 2]"
proof -
  have a: "(0::nat) < length [long_example]" by simp
  have res: "result_frame (get_top_regions_by_mom_change argsort_stable [long_example] 0 1 25
      ''EestimationDate'' ''RegionID'' ''RegionName'' ''MoM_Change'') = Inr sorted_example"
    by (simp add: get_top_regions_result example_window ranked_def example_avg example_sorted
          example_head_all bind_sum_Inr)
  have m: "map (\<lambda>r. snd r ! pos ''MoM_Change'' (columns sorted_example)) (rows sorted_example)
      = [Num 3, Num 2]"
    by code_simp
  from top_regions_sorted[OF a argsort_ok_stable res] argsort_ok_stable show ?thesis
    unfolding m by simp
qed

text \<open>The claim as stated fails for the order of ties.  The regions 1, 2 and 4 of
  \<open>five_regions_example\<close> have the same average and are grouped in this order.  With
  the sorting procedure that numpy uses on a processor with AVX-512 the call returns
  them in the order 1, 4, 2: region 4 stands before region 2.\<close>

lemma five_window: "window five_regions_example ''EestimationDate'' 12 = Inr five_regions_example"
  by code_simp

lemma five_avg:
  "groupby_mean ''RegionID'' ''RegionName'' ''MoM_Change'' five_regions_example = Inr five_avg_example"
  by code_simp

lemma five_sorted:
  "sort_values (avx512_argsort argsort_stable) ''MoM_Change'' five_avg_example = Inr five_ranked_example"
  by code_simp

lemma five_head: "head 25 five_ranked_example = five_ranked_example"
  by code_simp

theorem ties_counterexample:
  "groupby_mean ''RegionID'' ''RegionName'' ''MoM_Change'' five_regions_example = Inr five_avg_example \<and>
   map snd (rows five_avg_example)
     = [[Num 0, Str ''R0'', Num 1], [Num 1, Str ''R1'', Num 2], [Num 2, Str ''R2'', Num 2],
        [Num 3, Str ''R3'', Num 1], [Num 4, Str ''R4'', Num 2]] \<and>
   result_frame (get_top_regions_by_mom_change (avx512_argsort argsort_stable) [five_regions_example]
      0 12 25 ''EestimationDate'' ''RegionID'' ''RegionName'' ''MoM_Change'') = Inr five_ranked_example \<and>
   map snd (rows five_ranked_example)
     = [[Num 1, Str ''R1'', Num 2], [Num 4, Str ''R4'', Num 2], [Num 2, Str ''R2'', Num 2],
        [Num 0, Str ''R0'', Num 1], [Num 3, Str ''R3'', Num 1]]"
  by (simp add: five_avg get_top_regions_result five_window ranked_def five_sorted five_head
        bind_sum_Inr)
     (simp add: five_avg_example_def five_ranked_example_def)



end
